theory Spec2Isabelle
  imports Complex_Main "HOL-Library.Char_ord" "HOL-Library.List_Lexorder" "HOL-Library.Multiset"
begin

section \<open>Personal finance dashboard: ledger store, CSV codec and aggregation\<close>

text \<open>
  The repository holds two versions of the dashboard component \<^verbatim>\<open>App\<close>:
  \<^item> the signed ledger (\<^verbatim>\<open>src/unnamed/part_000\<close>), where a negative amount is an expense
    and a non-negative amount is income;
  \<^item> the unsigned ledger (\<^verbatim>\<open>personal-finance-dashboard_fixed/.../src/App.jsx\<close>), where every
    amount is a spend.
  Definitions without a suffix embed the signed ledger; the suffix \<open>_App\<close> marks the
  functions of \<^verbatim>\<open>App.jsx\<close> that differ from it.

  A JavaScript number is embedded as the rational it denotes, and the arithmetic of the
  component (\<open>+\<close>, \<open>-\<close>, \<open>*\<close>, \<open>/\<close>) rounds each exact result to the nearest binary64
  number. \<open>NaN\<close> appears only as the result \<open>None\<close> of \<open>parseFloat\<close>; the negative zero
  is the zero, and a result of magnitude \<open>2\<^sup>1\<^sup>0\<^sup>2\<^sup>4\<close> or more stands for an infinity. The
  reader \<open>parseFloat\<close> and the printer \<^verbatim>\<open>String(x)\<close> work on the decimal text as it is
  written: they do not round the number that the text denotes. Strings are embedded as
  lists of characters below 256.
\<close>

subsection \<open>Data model\<close>

record transaction =
  tx_id :: string
  date :: string
  description :: string
  amount :: rat
  category :: string

record goal =
  goal_id :: string
  name :: string
  target :: rat
  current :: rat
  due :: string

text \<open>
  The component state: the three persisted collections and the two filter settings
  (\<^verbatim>\<open>useState\<close> cells of \<^verbatim>\<open>App\<close>).
\<close>

record ledger =
  transactions :: "transaction list"
  goals :: "goal list"
  categories :: "string list"
  filterMonth :: string
  filterCategory :: string

definition DEFAULT_CATEGORIES :: "string list" where
  "DEFAULT_CATEGORIES =
     [''Groceries'', ''Dining Out'', ''Rent/Mortgage'', ''Utilities'', ''Transportation'',
      ''Health & Fitness'', ''Entertainment'', ''Shopping'', ''Travel'', ''Other'', ''Income'']"

subsection \<open>JavaScript primitives used by the component\<close>

text \<open>\<^verbatim>\<open>x || d\<close> on numbers: zero (and \<open>NaN\<close>) is falsy.\<close>

definition orNum :: "rat \<Rightarrow> rat \<Rightarrow> rat" where
  "orNum x d = (if x = 0 then d else x)"

text \<open>\<^verbatim>\<open>x || d\<close> where \<open>x\<close> is a string or \<^verbatim>\<open>undefined\<close>: both \<^verbatim>\<open>undefined\<close> and the
  empty string are falsy.\<close>

definition orStr :: "string option \<Rightarrow> string \<Rightarrow> string" where
  "orStr x d = (case x of None \<Rightarrow> d | Some s \<Rightarrow> if s = [] then d else s)"

text \<open>\<^verbatim>\<open>parts[i]\<close>: reading an array outside its bounds gives \<^verbatim>\<open>undefined\<close>.\<close>

definition elemAt :: "'a list \<Rightarrow> int \<Rightarrow> 'a option" where
  "elemAt xs i = (if 0 \<le> i \<and> i < int (length xs) then Some (xs ! nat i) else None)"

text \<open>\<^verbatim>\<open>Array.prototype.indexOf\<close>: the first position of the element, or \<open>-1\<close>.\<close>

fun indexOf :: "'a list \<Rightarrow> 'a \<Rightarrow> int" where
  "indexOf [] y = -1"
| "indexOf (x # xs) y =
     (if x = y then 0 else (let r = indexOf xs y in if r = -1 then -1 else r + 1))"

text \<open>White space as \<^verbatim>\<open>String.prototype.trim\<close> and \<^verbatim>\<open>parseFloat\<close> see it: among the
  characters below 256 these are the tab, the four line breaks and feeds, the space and
  the no-break space.\<close>

definition isWhiteSpace :: "char \<Rightarrow> bool" where
  "isWhiteSpace c \<longleftrightarrow>
     c \<in> set [CHR 0x09, CHR 0x0A, CHR 0x0B, CHR 0x0C, CHR 0x0D, CHR '' '', CHR 0xA0]"

definition trim :: "string \<Rightarrow> string" where
  "trim s = rev (dropWhile isWhiteSpace (rev (dropWhile isWhiteSpace s)))"

text \<open>\<^verbatim>\<open>toLowerCase\<close> on one character below 256: the letters \<open>A\<close> to \<open>Z\<close> and the
  accented capitals from \<open>0xC0\<close> to \<open>0xDE\<close> (the multiplication sign \<open>0xD7\<close> is not one)
  have their lower case 32 places further on.\<close>

definition toLower :: "char \<Rightarrow> char" where
  "toLower c =
     (if (CHR ''A'' \<le> c \<and> c \<le> CHR ''Z'') \<or> (CHR 0xC0 \<le> c \<and> c \<le> CHR 0xDE \<and> c \<noteq> CHR 0xD7)
      then char_of (of_char c + (32::nat)) else c)"

definition toLowerCase :: "string \<Rightarrow> string" where
  "toLowerCase s = map toLower s"

text \<open>\<^verbatim>\<open>s.split(d)\<close> for a one-character separator: the empty string splits into one
  empty field.\<close>

fun consHead :: "char \<Rightarrow> string list \<Rightarrow> string list" where
  "consHead c [] = [[c]]"
| "consHead c (x # xs) = (c # x) # xs"

fun splitOn :: "char \<Rightarrow> string \<Rightarrow> string list" where
  "splitOn d [] = [[]]"
| "splitOn d (c # cs) = (if c = d then [] # splitOn d cs else consHead c (splitOn d cs))"

text \<open>\<^verbatim>\<open>text.split(/\r?\n/)\<close>: a line feed ends a line, and one carriage return
  directly before it belongs to the separator.\<close>

fun splitLines :: "string \<Rightarrow> string list" where
  "splitLines [] = [[]]"
| "splitLines [c] = (if c = CHR 0x0A then [[], []] else [[c]])"
| "splitLines (c # d # cs) =
     (if c = CHR 0x0A then [] # splitLines (d # cs)
      else if c = CHR 0x0D \<and> d = CHR 0x0A then [] # splitLines cs
      else consHead c (splitLines (d # cs)))"

text \<open>\<^verbatim>\<open>xs.join(sep)\<close>.\<close>

fun join :: "string \<Rightarrow> string list \<Rightarrow> string" where
  "join sep [] = []"
| "join sep [x] = x"
| "join sep (x # y # ys) = x @ sep @ join sep (y # ys)"

text \<open>\<^verbatim>\<open>s.startsWith(p)\<close> and \<^verbatim>\<open>s.includes(p)\<close> on strings.\<close>

fun startsWith :: "string \<Rightarrow> string \<Rightarrow> bool" where
  "startsWith s [] = True"
| "startsWith [] (p # ps) = False"
| "startsWith (c # cs) (p # ps) = (c = p \<and> startsWith cs ps)"

fun includesStr :: "string \<Rightarrow> string \<Rightarrow> bool" where
  "includesStr [] p = (p = [])"
| "includesStr (c # cs) p = (startsWith (c # cs) p \<or> includesStr cs p)"

subsubsection \<open>parseFloat\<close>

text \<open>
  \<^verbatim>\<open>parseFloat\<close> skips leading white space and reads the longest prefix that is a
  decimal literal: an optional sign, digits with an optional fraction (or a fraction
  alone), and an exponent part when it is complete. No such prefix gives \<open>NaN\<close>, here
  \<open>None\<close>. The literal \<^verbatim>\<open>Infinity\<close> has no rational value and is read as \<open>None\<close> too.
\<close>

definition isDigit :: "char \<Rightarrow> bool" where
  "isDigit c \<longleftrightarrow> CHR ''0'' \<le> c \<and> c \<le> CHR ''9''"

definition digitVal :: "char \<Rightarrow> int" where
  "digitVal c = of_char c - 48"

definition digitsVal :: "string \<Rightarrow> int" where
  "digitsVal ds = foldl (\<lambda>a c. 10 * a + digitVal c) 0 ds"

text \<open>The sign in front of a literal or of an exponent: the sign and the rest.\<close>

fun readSign :: "string \<Rightarrow> bool \<times> string" where
  "readSign [] = (False, [])"
| "readSign (c # cs) =
     (if c = CHR ''-'' then (True, cs) else if c = CHR ''+'' then (False, cs) else (False, c # cs))"

text \<open>The exponent part at the head of the rest of the literal; \<open>0\<close> when there is
  none or when it has no digits.\<close>

fun readExponent :: "string \<Rightarrow> int" where
  "readExponent [] = 0"
| "readExponent (c # cs) =
     (if c = CHR ''e'' \<or> c = CHR ''E'' then
        (let (neg, r) = readSign cs; ds = takeWhile isDigit r
         in if ds = [] then 0 else if neg then - digitsVal ds else digitsVal ds)
      else 0)"

text \<open>\<open>m \<times> 10\<^sup>e\<close> for an integer exponent.\<close>

definition scale10 :: "rat \<Rightarrow> int \<Rightarrow> rat" where
  "scale10 m e = (if 0 \<le> e then m * 10 ^ nat e else m / 10 ^ nat (- e))"

text \<open>The unsigned literal at the head of a text: the digits before and after the point
  and the exponent; \<open>None\<close> when there is no digit.\<close>

definition readUnsigned :: "string \<Rightarrow> rat option" where
  "readUnsigned s1 =
     (let ip = takeWhile isDigit s1;
          r1 = dropWhile isDigit s1;
          hasDot = (r1 \<noteq> [] \<and> hd r1 = CHR ''.'');
          fp = (if hasDot then takeWhile isDigit (tl r1) else []);
          r2 = (if hasDot then dropWhile isDigit (tl r1) else r1)
      in if ip = [] \<and> fp = [] then None
         else Some (scale10 (of_int (digitsVal (ip @ fp))) (readExponent r2 - int (length fp))))"

definition parseFloat :: "string \<Rightarrow> rat option" where
  "parseFloat str =
     (let (neg, s1) = readSign (dropWhile isWhiteSpace str)
      in map_option (\<lambda>m. if neg then - m else m) (readUnsigned s1))"

text \<open>\<^verbatim>\<open>x || d\<close> where \<open>x\<close> is a number, \<open>NaN\<close> or \<^verbatim>\<open>undefined\<close> (the last two are \<open>None\<close>).\<close>

definition orNumOpt :: "rat option \<Rightarrow> rat \<Rightarrow> rat" where
  "orNumOpt v d = (case v of None \<Rightarrow> d | Some x \<Rightarrow> orNum x d)"

subsubsection \<open>Arithmetic on numbers\<close>

text \<open>
  A binary64 number is \<open>m \<times> 2\<^sup>q\<close> with an integer \<open>m\<close> of at most 53 binary digits and
  \<open>-1074 \<le> q\<close>. An operation on numbers gives the number nearest to the exact result; of
  two numbers equally near, the one with the even \<open>m\<close>.
\<close>

text \<open>The number of binary digits of a natural number (one digit for zero).\<close>

function bitLen :: "int \<Rightarrow> int" where
  "bitLen n = (if n < 2 then 1 else bitLen (n div 2) + 1)"
  by pat_completeness auto
termination
  by (relation "measure nat") auto

declare bitLen.simps [simp del]

text \<open>\<open>m \<times> 2\<^sup>e\<close> for an integer exponent.\<close>

definition scale2 :: "rat \<Rightarrow> int \<Rightarrow> rat" where
  "scale2 m e = (if 0 \<le> e then m * 2 ^ nat e else m / 2 ^ nat (- e))"

text \<open>The binary exponent of a positive rational: the \<open>e\<close> with \<open>2\<^sup>e \<le> a < 2\<^sup>e\<^sup>+\<^sup>1\<close>.\<close>

definition binExp :: "rat \<Rightarrow> int" where
  "binExp a =
     (if 1 \<le> a then bitLen \<lfloor>a\<rfloor> - 1
      else (let c = 1 - bitLen \<lfloor>1 / a\<rfloor> in if scale2 1 c \<le> a then c else c - 1))"

text \<open>The integer nearest to a rational, a tie going to the even one.\<close>

definition roundHalfEven :: "rat \<Rightarrow> int" where
  "roundHalfEven m =
     (let f = \<lfloor>m\<rfloor>; d = m - of_int f
      in if d < 1 / 2 then f else if 1 / 2 < d then f + 1 else if even f then f else f + 1)"

text \<open>The binary64 number nearest to a rational. The last place of the result has the
  exponent \<open>e - 52\<close>, where \<open>e\<close> is the binary exponent of the argument or \<open>-1022\<close> when
  that is larger (the subnormal range).\<close>

definition roundNumber :: "rat \<Rightarrow> rat" where
  "roundNumber x =
     (if x = 0 then 0
      else (let e = max (binExp \<bar>x\<bar>) (- 1022);
                r = scale2 (of_int (roundHalfEven (scale2 \<bar>x\<bar> (52 - e)))) (e - 52)
            in if x < 0 then - r else r))"

text \<open>The operators \<open>+\<close>, \<open>-\<close>, \<open>*\<close> and \<open>/\<close> on numbers. The component divides by \<open>12\<close> and
  by \<^verbatim>\<open>g.target || 1\<close> only, never by zero.\<close>

definition numAdd :: "rat \<Rightarrow> rat \<Rightarrow> rat" where
  "numAdd x y = roundNumber (x + y)"


definition numMul :: "rat \<Rightarrow> rat \<Rightarrow> rat" where
  "numMul x y = roundNumber (x * y)"

definition numDiv :: "rat \<Rightarrow> rat \<Rightarrow> rat" where
  "numDiv x y = roundNumber (x / y)"

subsubsection \<open>Sorting and comparing\<close>

text \<open>
  \<^verbatim>\<open>Array.prototype.sort\<close> with a comparison function \<open>c\<close>: a stable sort, where a
  result of \<open>c x y\<close> above zero puts \<open>x\<close> behind \<open>y\<close>. The language fixes the result for a
  consistent comparison function, and every stable sort gives it; here each element is put
  in front of the first element of the sorted rest that it does not have to follow.
\<close>

fun insertBy :: "('a \<Rightarrow> 'a \<Rightarrow> int) \<Rightarrow> 'a \<Rightarrow> 'a list \<Rightarrow> 'a list" where
  "insertBy c x [] = [x]"
| "insertBy c x (y # ys) = (if c x y \<le> 0 then x # y # ys else y # insertBy c x ys)"

definition sortBy :: "('a \<Rightarrow> 'a \<Rightarrow> int) \<Rightarrow> 'a list \<Rightarrow> 'a list" where
  "sortBy c xs = foldr (insertBy c) xs []"

text \<open>
  \<^verbatim>\<open>String.prototype.localeCompare\<close> compares two strings by the collation of the host's
  locale, which is not part of the component: the functions that call it take it as the
  parameter \<open>localeCompare\<close>, with a result below zero, zero or above zero.
\<close>

type_synonym collation = "string \<Rightarrow> string \<Rightarrow> int"

subsection \<open>Ledger store\<close>

text \<open>
  \<^verbatim>\<open>crypto.randomUUID()\<close> is passed in: \<open>newId\<close> is the identifier the call returned.
  The forms pass the fields of the new entry without an \<^verbatim>\<open>id\<close>, so the spread
  \<^verbatim>\<open>{ id: ..., ...tx }\<close> stores the fresh identifier.
\<close>

definition addTransaction :: "string \<Rightarrow> transaction \<Rightarrow> ledger \<Rightarrow> ledger" where
  "addTransaction newId tx s = s\<lparr>transactions := tx\<lparr>tx_id := newId\<rparr> # transactions s\<rparr>"

definition removeTransaction :: "string \<Rightarrow> ledger \<Rightarrow> ledger" where
  "removeTransaction i s = s\<lparr>transactions := filter (\<lambda>t. tx_id t \<noteq> i) (transactions s)\<rparr>"

definition addGoal :: "string \<Rightarrow> goal \<Rightarrow> ledger \<Rightarrow> ledger" where
  "addGoal newId g s = s\<lparr>goals := g\<lparr>goal_id := newId\<rparr> # goals s\<rparr>"

definition removeGoal :: "string \<Rightarrow> ledger \<Rightarrow> ledger" where
  "removeGoal i s = s\<lparr>goals := filter (\<lambda>g. goal_id g \<noteq> i) (goals s)\<rparr>"

definition addCategory :: "string \<Rightarrow> ledger \<Rightarrow> ledger" where
  "addCategory nm s =
     (let trimmed = trim nm
      in if trimmed = [] then s
         else if trimmed \<notin> set (categories s) then s\<lparr>categories := categories s @ [trimmed]\<rparr>
         else s)"

text \<open>\<open>confirmed\<close> is the answer of the \<^verbatim>\<open>confirm\<close> dialog.\<close>

definition resetAll :: "bool \<Rightarrow> ledger \<Rightarrow> ledger" where
  "resetAll confirmed s =
     (if confirmed then s\<lparr>transactions := [], goals := [], categories := DEFAULT_CATEGORIES\<rparr>
      else s)"

subsection \<open>CSV import\<close>

text \<open>The constants \<^verbatim>\<open>lines\<close>, \<^verbatim>\<open>cols\<close>, \<^verbatim>\<open>hasHeader\<close>, \<^verbatim>\<open>rows\<close> and \<^verbatim>\<open>hasType\<close> of
  \<^verbatim>\<open>importCSV\<close>, as functions of the text.\<close>

definition csvLines :: "string \<Rightarrow> string list" where
  "csvLines text = filter (\<lambda>l. l \<noteq> []) (splitLines text)"

definition csvCols :: "string \<Rightarrow> string list" where
  "csvCols text = map trim (splitOn CHR '','' (toLowerCase (hd (csvLines text))))"

definition csvHasHeader :: "string \<Rightarrow> bool" where
  "csvHasHeader text =
     list_all (\<lambda>h. h \<in> set (csvCols text)) [''date'', ''description'', ''amount'', ''category'']"

definition csvRows :: "string \<Rightarrow> string list" where
  "csvRows text = (if csvHasHeader text then tl (csvLines text) else csvLines text)"

definition csvHasType :: "string \<Rightarrow> bool" where
  "csvHasType text \<longleftrightarrow> csvHasHeader text \<and> indexOf (csvCols text) ''type'' \<noteq> -1"

text \<open>The amount text of a data line: \<^verbatim>\<open>parts[hasHeader ? idx("amount") : 2] || "0"\<close>.\<close>

definition amtStr :: "string list \<Rightarrow> bool \<Rightarrow> string \<Rightarrow> string" where
  "amtStr cols hasHeader line =
     orStr (elemAt (map trim (splitOn CHR '','' line))
              (if hasHeader then indexOf cols ''amount'' else 2)) ''0''"

text \<open>The lower-cased type text of a data line: \<^verbatim>\<open>(parts[idx("type")] || "").toLowerCase()\<close>
  when there is a type column, the empty string otherwise.\<close>

definition typeRaw :: "string list \<Rightarrow> bool \<Rightarrow> string \<Rightarrow> string" where
  "typeRaw cols hasType line =
     (if hasType
      then toLowerCase (orStr (elemAt (map trim (splitOn CHR '','' line)) (indexOf cols ''type'')) [])
      else [])"

text \<open>The function mapped over the data lines.\<close>

definition parseRow :: "string list \<Rightarrow> bool \<Rightarrow> bool \<Rightarrow> string \<Rightarrow> string \<Rightarrow> transaction" where
  "parseRow cols hasHeader hasType newId line =
     (let parts = map trim (splitOn CHR '','' line);
          idx = indexOf cols;
          d = orStr (elemAt parts (if hasHeader then idx ''date'' else 0)) [];
          desc = orStr (elemAt parts (if hasHeader then idx ''description'' else 1)) [];
          cat = orStr (elemAt parts (if hasHeader then idx ''category'' else 3)) ''Other'';
          amt = orNumOpt (parseFloat (amtStr cols hasHeader line)) 0;
          amnt = (if hasType
                  then (if startsWith (typeRaw cols hasType line) ''exp'' then - \<bar>amt\<bar> else \<bar>amt\<bar>)
                  else amt)
      in \<lparr>tx_id = newId, date = take 10 d, description = desc, amount = amnt, category = cat\<rparr>)"

text \<open>The array \<^verbatim>\<open>parsed\<close>; \<open>uuid i\<close> is the identifier drawn for the \<open>i\<close>-th data line.
  A text without a non-empty line returns before anything is parsed.\<close>

definition parseCSV :: "(nat \<Rightarrow> string) \<Rightarrow> string \<Rightarrow> transaction list" where
  "parseCSV uuid text =
     (if csvLines text = [] then []
      else map (\<lambda>(i, line). parseRow (csvCols text) (csvHasHeader text) (csvHasType text) (uuid i) line)
             (enumerate 0 (csvRows text)))"

definition importCSV :: "(nat \<Rightarrow> string) \<Rightarrow> string \<Rightarrow> ledger \<Rightarrow> ledger" where
  "importCSV uuid text s =
     (if csvLines text = [] then s
      else s\<lparr>transactions := parseCSV uuid text @ transactions s\<rparr>)"

subsubsection \<open>The import of \<^verbatim>\<open>App.jsx\<close>\<close>

text \<open>Here the header test looks for the four names anywhere in the lower-cased first
  line, the columns are always read by position, and the amount is stored unsigned.\<close>

definition csvHasHeader_App :: "string \<Rightarrow> bool" where
  "csvHasHeader_App text =
     list_all (\<lambda>h. includesStr (toLowerCase (hd (csvLines text))) h)
       [''date'', ''description'', ''amount'', ''category'']"

definition csvRows_App :: "string \<Rightarrow> string list" where
  "csvRows_App text = (if csvHasHeader_App text then tl (csvLines text) else csvLines text)"

definition parseRow_App :: "string \<Rightarrow> string \<Rightarrow> transaction" where
  "parseRow_App newId line =
     (let parts = map trim (splitOn CHR '','' line)
      in \<lparr>tx_id = newId,
          date = take 10 (orStr (elemAt parts 0) []),
          description = orStr (elemAt parts 1) [],
          amount = orNumOpt (map_option abs (parseFloat (orStr (elemAt parts 2) ''0''))) 0,
          category = orStr (elemAt parts 3) ''Other''\<rparr>)"

definition parseCSV_App :: "(nat \<Rightarrow> string) \<Rightarrow> string \<Rightarrow> transaction list" where
  "parseCSV_App uuid text =
     (if csvLines text = [] then []
      else map (\<lambda>(i, line). parseRow_App (uuid i) line) (enumerate 0 (csvRows_App text)))"

definition importCSV_App :: "(nat \<Rightarrow> string) \<Rightarrow> string \<Rightarrow> ledger \<Rightarrow> ledger" where
  "importCSV_App uuid text s =
     (if csvLines text = [] then s
      else s\<lparr>transactions := parseCSV_App uuid text @ transactions s\<rparr>)"

subsection \<open>CSV export\<close>

subsubsection \<open>Number to string\<close>

text \<open>
  \<^verbatim>\<open>String(x)\<close> for a number, as \<^verbatim>\<open>join\<close> applies it to the amount. With \<open>n\<close> the decimal
  exponent of \<open>x\<close> (\<open>10\<^sup>n\<^sup>-\<^sup>1 \<le> x < 10\<^sup>n\<close>) and \<open>ds\<close> the \<open>k\<close> significant digits, the
  text is the plain decimal notation for \<open>-6 < n \<le> 21\<close> and the exponent notation
  otherwise. A number has at most 17 significant digits; the model cuts a rational with
  more of them after the 17th.
\<close>

definition digitChar :: "int \<Rightarrow> char" where
  "digitChar d = ''0123456789'' ! nat d"

function digitsOf :: "int \<Rightarrow> string" where
  "digitsOf n =
     (if n < 10 then [digitChar n] else digitsOf (n div 10) @ [digitChar (n mod 10)])"
  by pat_completeness auto
termination
  by (relation "measure nat") auto

declare digitsOf.simps [simp del]

function stripZeros :: "int \<Rightarrow> int" where
  "stripZeros n = (if 0 < n \<and> n mod 10 = 0 then stripZeros (n div 10) else n)"
  by pat_completeness auto
termination
  by (relation "measure nat") auto

declare stripZeros.simps [simp del]

definition decExp :: "rat \<Rightarrow> int" where
  "decExp x =
     (if 1 \<le> x then int (length (digitsOf \<lfloor>x\<rfloor>))
      else (let n0 = 1 - int (length (digitsOf \<lfloor>1 / x\<rfloor>))
            in if scale10 1 n0 \<le> x then n0 + 1 else n0))"

definition exponentText :: "int \<Rightarrow> string" where
  "exponentText e = ''e'' @ (if e < 0 then ''-'' else ''+'') @ digitsOf \<bar>e\<bar>"

definition posToString :: "rat \<Rightarrow> string" where
  "posToString x =
     (let n = decExp x;
          ds = digitsOf (stripZeros \<lfloor>scale10 x (17 - n)\<rfloor>);
          k = int (length ds)
      in if k \<le> n \<and> n \<le> 21 then ds @ replicate (nat (n - k)) CHR ''0''
         else if 0 < n \<and> n \<le> 21 then take (nat n) ds @ ''.'' @ drop (nat n) ds
         else if - 6 < n \<and> n \<le> 0 then ''0.'' @ replicate (nat (- n)) CHR ''0'' @ ds
         else if k = 1 then ds @ exponentText (n - 1)
         else take 1 ds @ ''.'' @ drop 1 ds @ exponentText (n - 1))"

definition numToString :: "rat \<Rightarrow> string" where
  "numToString x =
     (if x = 0 then ''0'' else if x < 0 then ''-'' @ posToString (- x) else posToString x)"

subsubsection \<open>The exported text\<close>

definition cleanCSV :: "string \<Rightarrow> string" where
  "cleanCSV s =
     (let needsQuotes = (\<exists>c \<in> set s. c = CHR 0x22 \<or> c = CHR '','' \<or> c = CHR 0x0A);
          escaped = concat (map (\<lambda>c. if c = CHR 0x22 then [CHR 0x22, CHR 0x22] else [c]) s)
      in if needsQuotes then [CHR 0x22] @ escaped @ [CHR 0x22] else escaped)"

text \<open>The function mapped over the transactions: one row of the file.\<close>

definition exportRow :: "transaction \<Rightarrow> string" where
  "exportRow t =
     (let type = (if amount t < 0 then ''expense'' else ''income'')
      in join '','' [date t, cleanCSV (description t), numToString (amount t),
                     cleanCSV (category t), type])"

text \<open>The text of the \<^verbatim>\<open>Blob\<close> that \<^verbatim>\<open>exportCSV\<close> offers for download.\<close>

definition exportCSV :: "ledger \<Rightarrow> string" where
  "exportCSV s =
     ''date,description,amount,category,type'' @ [CHR 0x0A]
       @ join [CHR 0x0A] (map exportRow (transactions s))"

subsection \<open>Aggregation\<close>

definition filteredTx :: "ledger \<Rightarrow> transaction list" where
  "filteredTx s =
     filter (\<lambda>t.
        let ymv = take 7 (date t);
            monthOK = (filterMonth s = [] \<or> ymv = filterMonth s);
            catOK = (filterCategory s = ''All'' \<or> category t = filterCategory s)
        in monthOK \<and> catOK) (transactions s)"

text \<open>A JavaScript \<^verbatim>\<open>Map\<close> keeps its keys in insertion order, and setting an existing key
  keeps the key's position: an association list.\<close>

fun mapSet :: "('k \<times> 'v) list \<Rightarrow> 'k \<Rightarrow> 'v \<Rightarrow> ('k \<times> 'v) list" where
  "mapSet [] k v = [(k, v)]"
| "mapSet ((k', v') # m) k v = (if k' = k then (k, v) # m else (k', v') # mapSet m k v)"

definition mapGet :: "('k \<times> 'v) list \<Rightarrow> 'k \<Rightarrow> 'v option" where
  "mapGet m k = map_of m k"




text \<open>The key of a transaction in the category breakdown: \<^verbatim>\<open>t.category || "Uncategorized"\<close>.\<close>

definition catKey :: "transaction \<Rightarrow> string" where
  "catKey t = orStr (Some (category t)) ''Uncategorized''"

text \<open>One round of the loop over \<^verbatim>\<open>filteredTx\<close> that fills \<^verbatim>\<open>byCatMap\<close>.\<close>

definition byCatStep :: "(string \<times> rat) list \<Rightarrow> transaction \<Rightarrow> (string \<times> rat) list" where
  "byCatStep m t =
     (if amount t < 0
      then mapSet m (catKey t) (numAdd (orNumOpt (mapGet m (catKey t)) 0) \<bar>amount t\<bar>)
      else m)"

text \<open>The entries \<^verbatim>\<open>{name, value}\<close> of the breakdown, as pairs.\<close>

definition byCat :: "ledger \<Rightarrow> (string \<times> rat) list" where
  "byCat s = foldl byCatStep [] (filteredTx s)"

text \<open>\<^verbatim>\<open>App.jsx\<close> adds \<^verbatim>\<open>Number(t.amount || 0)\<close> for every filtered transaction.\<close>

definition byCatStep_App :: "(string \<times> rat) list \<Rightarrow> transaction \<Rightarrow> (string \<times> rat) list" where
  "byCatStep_App m t =
     mapSet m (catKey t) (numAdd (orNumOpt (mapGet m (catKey t)) 0) (orNum (amount t) 0))"

definition byCat_App :: "ledger \<Rightarrow> (string \<times> rat) list" where
  "byCat_App s = foldl byCatStep_App [] (filteredTx s)"

record monthEntry =
  ym :: string
  incomeSum :: rat
  expensesSum :: rat

text \<open>One round of the loop over all transactions that fills \<^verbatim>\<open>byMonthMap\<close>; the fields
  \<^verbatim>\<open>income\<close> and \<^verbatim>\<open>expenses\<close> of an entry are \<open>incomeSum\<close> and \<open>expensesSum\<close>.\<close>

definition byMonthStep :: "(string \<times> monthEntry) list \<Rightarrow> transaction \<Rightarrow> (string \<times> monthEntry) list" where
  "byMonthStep m t =
     (let ymv = orStr (Some (take 7 (date t))) []
      in if ymv = [] then m
         else
           (let entry = (case mapGet m ymv of
                           None \<Rightarrow> \<lparr>ym = ymv, incomeSum = 0, expensesSum = 0\<rparr>
                         | Some e \<Rightarrow> e);
                entry' = (if amount t \<ge> 0
                          then entry\<lparr>incomeSum := numAdd (incomeSum entry) (amount t)\<rparr>
                          else entry\<lparr>expensesSum := numAdd (expensesSum entry) \<bar>amount t\<bar>\<rparr>)
            in mapSet m ymv entry'))"

text \<open>The values of the map, sorted by \<^verbatim>\<open>a.ym.localeCompare(b.ym)\<close>.\<close>

definition byMonth :: "collation \<Rightarrow> ledger \<Rightarrow> monthEntry list" where
  "byMonth localeCompare s =
     sortBy (\<lambda>a b. localeCompare (ym a) (ym b)) (map snd (foldl byMonthStep [] (transactions s)))"



text \<open>\<^verbatim>\<open>goals.reduce((s, g) => s + (g.target || 0) / 12, 0)\<close>.\<close>

definition monthlyBudgetTarget :: "ledger \<Rightarrow> rat" where
  "monthlyBudgetTarget s = foldl (\<lambda>a g. numAdd a (numDiv (orNum (target g) 0) 12)) 0 (goals s)"

text \<open>\<^verbatim>\<open>Math.round\<close>: the nearest integer, a tie going up.\<close>

definition Math_round :: "rat \<Rightarrow> rat" where
  "Math_round x = of_int \<lfloor>x + 1 / 2\<rfloor>"

text \<open>The percentage \<^verbatim>\<open>pct\<close> shown for a goal:
  \<^verbatim>\<open>Math.min(100, Math.round(((g.current || 0) / (g.target || 1)) * 100))\<close>.\<close>

definition pct :: "goal \<Rightarrow> rat" where
  "pct g = min 100 (Math_round (numMul (numDiv (orNum (current g) 0) (orNum (target g) 1)) 100))"

subsection \<open>Specification-side definitions\<close>

text \<open>The distinct elements of a list in the order of their first occurrence.\<close>

fun firstSeen :: "'a list \<Rightarrow> 'a list" where
  "firstSeen [] = []"
| "firstSeen (x # xs) = x # filter (\<lambda>y. y \<noteq> x) (firstSeen xs)"

text \<open>The sum of \<open>f\<close> over a list of transactions, added up from the left.\<close>

definition sumOf :: "(transaction \<Rightarrow> rat) \<Rightarrow> transaction list \<Rightarrow> rat" where
  "sumOf f txs = foldl (\<lambda>a t. numAdd a (f t)) 0 txs"

text \<open>The breakdown as the specification words it: one entry per category key, in
  first-seen order, holding the sum of \<open>f\<close> over the transactions with that key.\<close>

definition breakdown :: "(transaction \<Rightarrow> rat) \<Rightarrow> transaction list \<Rightarrow> (string \<times> rat) list" where
  "breakdown f txs =
     map (\<lambda>k. (k, sumOf f (filter (\<lambda>t. catKey t = k) txs))) (firstSeen (map catKey txs))"

text \<open>The map update that both breakdown loops perform for a transaction they count.\<close>

definition addTo ::
  "(transaction \<Rightarrow> rat) \<Rightarrow> (string \<times> rat) list \<Rightarrow> transaction \<Rightarrow> (string \<times> rat) list" where
  "addTo f m t = mapSet m (catKey t) (numAdd (orNumOpt (mapGet m (catKey t)) 0) (f t))"





text \<open>A sample collation: two texts are compared without regard to case first, and a tie is
  broken by the first place where the case differs, the lower-case letter going first. This
  is how the root collation of the Unicode collation algorithm ranks texts made of ASCII
  letters, digits and hyphens.\<close>

definition caseKey :: "string \<Rightarrow> bool list" where
  "caseKey s = map (\<lambda>c. toLower c \<noteq> c) s"

definition collate :: collation where
  "collate a b =
     (if toLowerCase a < toLowerCase b then - 1
      else if toLowerCase b < toLowerCase a then 1
      else if caseKey a < caseKey b then - 1
      else if caseKey b < caseKey a then 1
      else 0)"

text \<open>The progress of a goal as the specification words it, with \<open>max(target, 1)\<close> as the
  divisor.\<close>

definition pctSpec :: "goal \<Rightarrow> rat" where
  "pctSpec g = min 100 (Math_round (numMul (numDiv (current g) (max (target g) 1)) 100))"

text \<open>The sum of all targets, added up from the left, divided by 12.\<close>

definition targetSum12 :: "goal list \<Rightarrow> rat" where
  "targetSum12 gs = numDiv (foldl (\<lambda>a g. numAdd a (target g)) 0 gs) 12"

text \<open>A rational that is a finite binary64 number: rounding leaves it as it is, and it is
  below \<open>2\<^sup>1\<^sup>0\<^sup>2\<^sup>4\<close> in magnitude.\<close>

definition isNumber :: "rat \<Rightarrow> bool" where
  "isNumber x \<longleftrightarrow> roundNumber x = x \<and> \<bar>x\<bar> < 2 ^ 1024"

text \<open>The goal lists on which the fold of \<open>monthlyBudgetTarget\<close>, started at \<open>a\<close>, rounds
  nothing: every quotient \<open>target / 12\<close> and every partial sum is a finite binary64 number.\<close>

fun exactFold :: "rat \<Rightarrow> goal list \<Rightarrow> bool" where
  "exactFold a [] = True"
| "exactFold a (g # gs) =
     (isNumber (target g / 12) \<and> isNumber (a + target g / 12) \<and> exactFold (a + target g / 12) gs)"

text \<open>The data model's condition on a category: a name of the registry, or one of the two
  defaults; and the ledger invariant that every transaction meets it.\<close>

definition registered :: "ledger \<Rightarrow> string \<Rightarrow> bool" where
  "registered s c \<longleftrightarrow> c \<in> set (categories s) \<or> c = ''Other'' \<or> c = ''Uncategorized''"

definition catInv :: "ledger \<Rightarrow> bool" where
  "catInv s \<longleftrightarrow> list_all (\<lambda>t. registered s (category t)) (transactions s)"

text \<open>The condition of the round-trip claim on a text field: no comma, no double quote,
  no line feed.\<close>

definition plainText :: "string \<Rightarrow> bool" where
  "plainText s \<longleftrightarrow> CHR '','' \<notin> set s \<and> CHR 0x22 \<notin> set s \<and> CHR 0x0A \<notin> set s"

text \<open>A number whose printed text is read back by \<open>parseFloat\<close> as the same number.\<close>

definition printable :: "rat \<Rightarrow> bool" where
  "printable a \<longleftrightarrow> parseFloat (numToString a) = Some a"

text \<open>A transaction that export followed by import gives back: plain description and
  category without white space around them, a category that is not blank, a date of at most
  ten characters without comma, line feed or white space around it, a printable amount.\<close>

definition roundTripSafe :: "transaction \<Rightarrow> bool" where
  "roundTripSafe t \<longleftrightarrow>
     plainText (description t) \<and> trim (description t) = description t
     \<and> plainText (category t) \<and> trim (category t) = category t \<and> category t \<noteq> []
     \<and> CHR '','' \<notin> set (date t) \<and> CHR 0x0A \<notin> set (date t) \<and> trim (date t) = date t
     \<and> length (date t) \<le> 10
     \<and> printable (amount t)"

text \<open>A positive number cut after its 17th significant digit, and the numbers that the cut
  leaves as they are: those of at most 17 significant digits.\<close>

definition approx17 :: "rat \<Rightarrow> rat" where
  "approx17 x = scale10 (of_int \<lfloor>scale10 x (17 - decExp x)\<rfloor>) (decExp x - 17)"

definition sig17 :: "rat \<Rightarrow> bool" where
  "sig17 x \<longleftrightarrow> approx17 \<bar>x\<bar> = \<bar>x\<bar>"





subsection \<open>Sample data\<close>

text \<open>Identifiers for the sample imports, a fresh ledger and two goals.\<close>

definition sampleIds :: "nat \<Rightarrow> string" where
  "sampleIds i = ''id-'' @ replicate i CHR ''x''"

definition freshLedger :: ledger where
  "freshLedger = \<lparr>transactions = [], goals = [], categories = DEFAULT_CATEGORIES,
                   filterMonth = ''2024-01'', filterCategory = ''All''\<rparr>"

definition goalA :: goal where
  "goalA = \<lparr>goal_id = ''g1'', name = ''Emergency fund'', target = 6000, current = 1500,
             due = ''2025-06''\<rparr>"

definition goalB :: goal where
  "goalB = \<lparr>goal_id = ''g2'', name = ''Holiday'', target = 1200, current = 0, due = []\<rparr>"

definition goalC :: goal where
  "goalC = \<lparr>goal_id = ''g3'', name = ''Jar'', target = 1 / 2, current = 1 / 4, due = []\<rparr>"

text \<open>A goal of 29 out of 200, and three goals with the targets 1000, 100 and 100.\<close>

definition goalD :: goal where
  "goalD = \<lparr>goal_id = ''g4'', name = ''Bike'', target = 200, current = 29, due = []\<rparr>"

definition goalE :: goal where
  "goalE = \<lparr>goal_id = ''g5'', name = ''Laptop'', target = 1000, current = 0, due = []\<rparr>"

definition goalF :: goal where
  "goalF = \<lparr>goal_id = ''g6'', name = ''Shoes'', target = 100, current = 0, due = []\<rparr>"

definition goalG :: goal where
  "goalG = \<lparr>goal_id = ''g7'', name = ''Books'', target = 100, current = 0, due = []\<rparr>"

definition txPay :: transaction where
  "txPay = \<lparr>tx_id = ''t1'', date = ''2024-01-05'', description = ''Paycheck'', amount = 1500,
             category = ''Income''\<rparr>"

definition txRent :: transaction where
  "txRent = \<lparr>tx_id = ''t2'', date = ''2024-01-06'', description = ''Rent'', amount = - 1200,
              category = ''Rent/Mortgage''\<rparr>"

definition txGym :: transaction where
  "txGym = \<lparr>tx_id = ''t3'', date = ''2024-02-01'', description = ''Gym'', amount = - 45,
             category = ''Health & Fitness''\<rparr>"

definition sampleLedger :: ledger where
  "sampleLedger = freshLedger\<lparr>transactions := [txGym, txRent, txPay]\<rparr>"

text \<open>The two rows of the legacy four-column format, and a file with a type column.\<close>

definition legacyCsv :: string where
  "legacyCsv = ''2024-01-05,Paycheck,1500,Income\<newline>2024-01-06,Rent,-1200,Rent/Mortgage''"

definition typedCsv :: string where
  "typedCsv =
     ''date,description,amount,category,type\<newline>2024-02-01,Gym,45,Health & Fitness,expense''"

definition incomeLedger :: ledger where
  "incomeLedger = freshLedger\<lparr>transactions := [txPay]\<rparr>"

text \<open>A row whose category is not in the registry.\<close>

definition salaryCsv :: string where
  "salaryCsv = ''2024-01-05,Paycheck,1500,Salary''"



text \<open>A transaction whose description starts with a no-break space.\<close>

definition txNbsp :: transaction where
  "txNbsp = \<lparr>tx_id = ''t8'', date = ''2024-01-06'', description = CHR 0xA0 # ''Rent'',
              amount = - 1200, category = ''Rent/Mortgage''\<rparr>"

text \<open>Two imported transactions whose dates are not in the form of the date picker.\<close>

definition txFeb :: transaction where
  "txFeb = \<lparr>tx_id = ''t10'', date = ''Feb-2024'', description = ''Gym'', amount = - 45,
             category = ''Health & Fitness''\<rparr>"

definition txApr :: transaction where
  "txApr = \<lparr>tx_id = ''t11'', date = ''apr-2024'', description = ''Gym'', amount = - 45,
             category = ''Health & Fitness''\<rparr>"

definition namedMonthLedger :: ledger where
  "namedMonthLedger = freshLedger\<lparr>transactions := [txFeb, txApr]\<rparr>"

text \<open>A transaction whose date carries a time, and one whose category is blank.\<close>

definition txLongDate :: transaction where
  "txLongDate = \<lparr>tx_id = ''t6'', date = ''2024-01-06T09:30'', description = ''Rent'',
                  amount = - 1200, category = ''Rent/Mortgage''\<rparr>"

definition txBlankCat :: transaction where
  "txBlankCat = \<lparr>tx_id = ''t7'', date = ''2024-01-06'', description = ''Rent'',
                  amount = - 1200, category = []\<rparr>"

section \<open>Properties\<close>

subsection \<open>Auxiliary facts\<close>

lemma orNum_zero [simp]: "orNum x 0 = x"
  by (simp add: orNum_def)

lemma floor_half: "\<lfloor>1 / 2 :: rat\<rfloor> = 0"
  by (rule floor_unique) simp_all

lemma roundNumber_0 [simp]: "roundNumber 0 = 0"
  by (simp add: roundNumber_def)

lemma roundNumber_values: "roundNumber 2 = 2" "roundNumber 200 = 200"
  by code_simp+

text \<open>Some values of the arithmetic: one tenth and two tenths as numbers and their sum
  \<open>0.30000000000000004\<close>, and the number nearest to three tenths.\<close>

lemma roundNumber_samples:
  "roundNumber (1 / 10) = 3602879701896397 / 36028797018963968"
  "roundNumber (2 / 10) = 3602879701896397 / 18014398509481984"
  "numAdd (roundNumber (1 / 10)) (roundNumber (2 / 10)) = 1351079888211149 / 4503599627370496"
  "roundNumber (3 / 10) = 5404319552844595 / 18014398509481984"
  by code_simp+

lemma Math_round_values: "Math_round 0 = 0" "Math_round 200 = 200"
  by code_simp+

lemma csvRows_nonempty: "i < length (csvRows csv) \<Longrightarrow> csvLines csv \<noteq> []"
  by (auto simp: csvRows_def split: if_splits)

lemma parseCSV_nth:
  "i < length (csvRows csv) \<Longrightarrow>
   parseCSV uuid csv ! i =
     parseRow (csvCols csv) (csvHasHeader csv) (csvHasType csv) (uuid i) (csvRows csv ! i)"
  using csvRows_nonempty [of i csv]
  by (simp add: parseCSV_def nth_enumerate_eq)

lemma csvRows_App_nonempty: "i < length (csvRows_App csv) \<Longrightarrow> csvLines csv \<noteq> []"
  by (auto simp: csvRows_App_def split: if_splits)

lemma parseCSV_App_nth:
  "i < length (csvRows_App csv) \<Longrightarrow>
   parseCSV_App uuid csv ! i = parseRow_App (uuid i) (csvRows_App csv ! i)"
  using csvRows_App_nonempty [of i csv]
  by (simp add: parseCSV_App_def nth_enumerate_eq)

lemma amount_parseRow:
  "amount (parseRow cols hh ht newId line) =
     (let amt = orNumOpt (parseFloat (amtStr cols hh line)) 0
      in if ht then (if startsWith (typeRaw cols ht line) ''exp'' then - \<bar>amt\<bar> else \<bar>amt\<bar>)
         else amt)"
  by (simp add: parseRow_def Let_def)

lemma amount_parseRow_App:
  "amount (parseRow_App newId line) =
     orNumOpt (map_option abs
       (parseFloat (orStr (elemAt (map trim (splitOn CHR '','' line)) 2) ''0''))) 0"
  by (simp add: parseRow_App_def Let_def)

lemma pct_formula:
  "pct g =
     min 100 (Math_round (numMul (numDiv (current g) (if target g = 0 then 1 else target g)) 100))"
  by (simp add: pct_def orNum_def)

lemma exactFold_sum:
  "exactFold a gs \<Longrightarrow>
   foldl (\<lambda>a g. numAdd a (numDiv (target g) 12)) a gs = a + sum_list (map target gs) / 12"
proof (induction gs arbitrary: a)
  case Nil
  show ?case by simp
next
  case (Cons g gs)
  from Cons.prems have q: "numDiv (target g) 12 = target g / 12"
    and p: "numAdd a (target g / 12) = a + target g / 12"
    and r: "exactFold (a + target g / 12) gs"
    by (simp_all add: numDiv_def numAdd_def isNumber_def)
  show ?case
    by (simp add: q p Cons.IH [OF r] add_divide_distrib add.assoc)
qed

subsection \<open>Evaluation of the sample imports\<close>

lemma parseFloat_1500: "parseFloat ''1500'' = Some 1500"
  by code_simp

lemma parseFloat_m1200: "parseFloat ''-1200'' = Some (- 1200)"
  by code_simp

lemma legacy_amtStr0: "amtStr cols False ''2024-01-05,Paycheck,1500,Income'' = ''1500''"
  by code_simp

lemma legacy_amtStr1: "amtStr cols False ''2024-01-06,Rent,-1200,Rent/Mortgage'' = ''-1200''"
  by code_simp

lemma legacy_lines:
  "csvLines legacyCsv = [''2024-01-05,Paycheck,1500,Income'', ''2024-01-06,Rent,-1200,Rent/Mortgage'']"
  by code_simp

lemma legacy_no_header: "\<not> csvHasHeader legacyCsv"
  by code_simp

lemma legacy_no_header_App: "\<not> csvHasHeader_App legacyCsv"
  by code_simp

lemma legacy_rows:
  "csvRows legacyCsv = [''2024-01-05,Paycheck,1500,Income'', ''2024-01-06,Rent,-1200,Rent/Mortgage'']"
  by (simp add: csvRows_def legacy_no_header legacy_lines)

lemma legacy_rows_App:
  "csvRows_App legacyCsv = [''2024-01-05,Paycheck,1500,Income'', ''2024-01-06,Rent,-1200,Rent/Mortgage'']"
  by (simp add: csvRows_App_def legacy_no_header_App legacy_lines)

lemma legacy_amt0:
  "parseFloat (amtStr cols False ''2024-01-05,Paycheck,1500,Income'') = Some 1500"
  by (simp only: legacy_amtStr0 parseFloat_1500)

lemma legacy_amt1:
  "parseFloat (amtStr cols False ''2024-01-06,Rent,-1200,Rent/Mortgage'') = Some (- 1200)"
  by (simp only: legacy_amtStr1 parseFloat_m1200)

lemma legacy_App_str1:
  "orStr (elemAt (map trim (splitOn CHR '','' ''2024-01-06,Rent,-1200,Rent/Mortgage'')) 2) ''0'' = ''-1200''"
  by code_simp

lemma legacy_App_field1:
  "parseFloat (orStr (elemAt (map trim (splitOn CHR '','' ''2024-01-06,Rent,-1200,Rent/Mortgage'')) 2) ''0'')
     = Some (- 1200)"
  by (simp only: legacy_App_str1 parseFloat_m1200)

lemma legacy_App_row1:
  "amount (parseRow_App newId ''2024-01-06,Rent,-1200,Rent/Mortgage'') = 1200"
  unfolding amount_parseRow_App legacy_App_field1
  by (simp add: orNumOpt_def orNum_def)

subsection \<open>Goal progress\<close>

text \<open>A goal of 29 out of 200: the quotient is rounded to a number just below 0.145, the
  product to one just below 14.5, and the goal shows 14 percent.\<close>

lemma pct_goalD:
  "numMul (numDiv (current goalD) (target goalD)) 100 = 8162774324609023 / 562949953421312
   \<and> pct goalD = 14"
  by code_simp

text \<open>
  C6, as the code has it. For a goal with non-negative \<open>current\<close> and \<open>target\<close> the
  percentage is \<open>min(100, round(current / t * 100))\<close>, where \<open>t\<close> is the target, or 1
  when the target is 0 (\<^verbatim>\<open>g.target || 1\<close>), and the quotient and the product are rounded to
  binary64. This is the formula with \<open>max(target, 1)\<close> when the target is 0 or at least 1.
  A positive target with \<open>current = 2 * target\<close> shows 100, and \<open>target = 0\<close> with
  \<open>current = 0\<close> shows 0.
\<close>

theorem goal_progress:
  "0 \<le> current g \<Longrightarrow> 0 \<le> target g \<Longrightarrow>
     pct g =
       min 100 (Math_round (numMul (numDiv (current g) (if target g = 0 then 1 else target g)) 100))
     \<and> (target g = 0 \<or> 1 \<le> target g \<longrightarrow> pct g = pctSpec g)
     \<and> (0 < target g \<and> current g = 2 * target g \<longrightarrow> pct g = 100)
     \<and> (target g = 0 \<and> current g = 0 \<longrightarrow> pct g = 0)"
proof -
  have a: "target g = 0 \<or> 1 \<le> target g \<Longrightarrow> pct g = pctSpec g"
    by (auto simp: pct_formula pctSpec_def max_def)
  have b: "pct g = 100" if "0 < target g" "current g = 2 * target g"
  proof -
    from that have "numDiv (current g) (target g) = 2"
      by (simp add: numDiv_def roundNumber_values)
    with that(1) show ?thesis
      by (simp add: pct_formula numMul_def roundNumber_values Math_round_values)
  qed
  have c: "target g = 0 \<and> current g = 0 \<Longrightarrow> pct g = 0"
    by (simp add: pct_formula numDiv_def numMul_def Math_round_values)
  from a b c show ?thesis
    using pct_formula [of g] by blast
qed

theorem goal_progress_witness:
  "0 \<le> current goalA \<and> 0 \<le> target goalA \<and> 1 \<le> target goalA
   \<and> pct goalA = pctSpec goalA
   \<and> pctSpec goalA = 25"
proof -
  have c: "0 \<le> current goalA" and t: "0 \<le> target goalA" and t1: "1 \<le> target goalA"
    by (simp_all add: goalA_def)
  have v: "pctSpec goalA = 25"
    by code_simp
  from goal_progress [OF c t] t1 v c t show ?thesis
    by simp
qed

text \<open>
  A target of one half with a quarter saved: the code shows 50 percent, the formula with
  \<open>max(target, 1)\<close> gives 25, in binary64 and in exact arithmetic alike.
\<close>

theorem goal_progress_counterexample:
  "0 \<le> current goalC \<and> 0 \<le> target goalC
   \<and> pct goalC = 50
   \<and> pctSpec goalC = 25
   \<and> min 100 (Math_round (current goalC / max (target goalC) 1 * 100)) = 25"
  by code_simp

subsection \<open>Implied monthly target\<close>

lemma roundNumber_hundreds:
  "roundNumber 100 = 100" "roundNumber 500 = 500" "roundNumber 600 = 600"
  by code_simp+

lemma exact_AB: "exactFold 0 [goalA, goalB]" "exactFold 0 [goalB, goalA]"
  by (simp_all add: goalA_def goalB_def isNumber_def roundNumber_hundreds)

lemma mset_AB: "mset [goalB, goalA] = mset [goalA, goalB]"
  by (simp add: add_mset_commute)

lemma mset_EFG: "mset [goalF, goalG, goalE] = mset [goalE, goalF, goalG]"
  by (simp add: add_mset_commute)

lemma fold_EFG:
  "foldl (\<lambda>a g. numAdd a (numDiv (orNum (target g) 0) 12)) 0 [goalE, goalF, goalG]
     = 7036874417766399 / 70368744177664"
  by code_simp

lemma fold_FGE:
  "foldl (\<lambda>a g. numAdd a (numDiv (orNum (target g) 0) 12)) 0 [goalF, goalG, goalE] = 100"
  by code_simp

lemma sum_EFG:
  "sum_list (map target [goalE, goalF, goalG]) / 12 = 100" "targetSum12 [goalE, goalF, goalG] = 100"
  by code_simp+

text \<open>
  C7, as the code has it. The implied monthly target is the sum of \<open>target / 12\<close> over the
  goals, each quotient and each partial sum rounded to binary64, and it is the same under
  any month and category filter. For a non-empty goal list on which nothing is rounded it
  is the sum of the targets divided by 12, and a reordering of the list on which nothing is
  rounded either has the same value.
\<close>

theorem implied_monthly_target:
  "goals s \<noteq> [] \<Longrightarrow>
     (\<forall>m c. monthlyBudgetTarget (s\<lparr>filterMonth := m, filterCategory := c\<rparr>)
               = monthlyBudgetTarget s)
     \<and> (exactFold 0 (goals s) \<longrightarrow> monthlyBudgetTarget s = sum_list (map target (goals s)) / 12)
     \<and> (\<forall>s'. mset (goals s') = mset (goals s) \<and> exactFold 0 (goals s) \<and> exactFold 0 (goals s')
            \<longrightarrow> monthlyBudgetTarget s' = monthlyBudgetTarget s)"
proof -
  have e: "monthlyBudgetTarget r = sum_mset (image_mset target (mset (goals r))) / 12"
    if "exactFold 0 (goals r)" for r
  proof -
    have "sum_list (map target (goals r)) = sum_mset (image_mset target (mset (goals r)))"
      by (metis mset_map sum_mset_sum_list)
    with exactFold_sum [OF that] show ?thesis
      by (simp add: monthlyBudgetTarget_def)
  qed
  have r: "monthlyBudgetTarget s' = monthlyBudgetTarget s"
    if "mset (goals s') = mset (goals s)" "exactFold 0 (goals s)" "exactFold 0 (goals s')" for s'
    using e [OF that(2)] e [OF that(3)] that(1) by simp
  have x: "monthlyBudgetTarget s = sum_list (map target (goals s)) / 12" if "exactFold 0 (goals s)"
    using exactFold_sum [OF that] by (simp add: monthlyBudgetTarget_def)
  have f: "monthlyBudgetTarget (s\<lparr>filterMonth := m, filterCategory := c\<rparr>) = monthlyBudgetTarget s"
    for m c
    by (simp add: monthlyBudgetTarget_def)
  from r x f show ?thesis
    by blast
qed

theorem implied_monthly_target_witness:
  "goals (freshLedger\<lparr>goals := [goalA, goalB]\<rparr>) \<noteq> []
   \<and> exactFold 0 [goalA, goalB] \<and> exactFold 0 [goalB, goalA]
   \<and> monthlyBudgetTarget (freshLedger\<lparr>goals := [goalA, goalB]\<rparr>) = 600
   \<and> monthlyBudgetTarget (freshLedger\<lparr>goals := [goalB, goalA]\<rparr>)
       = monthlyBudgetTarget (freshLedger\<lparr>goals := [goalA, goalB]\<rparr>)
   \<and> monthlyBudgetTarget
        (freshLedger\<lparr>goals := [goalA, goalB]\<rparr>\<lparr>filterMonth := [], filterCategory := ''Travel''\<rparr>)
       = 600"
proof -
  let ?s = "freshLedger\<lparr>goals := [goalA, goalB]\<rparr>"
  have ne: "goals ?s \<noteq> []"
    by simp
  have v: "sum_list (map target (goals ?s)) / 12 = 600"
    by (simp add: goalA_def goalB_def)
  have x: "exactFold 0 (goals ?s)" "exactFold 0 (goals (freshLedger\<lparr>goals := [goalB, goalA]\<rparr>))"
    using exact_AB by simp_all
  have p: "mset (goals (freshLedger\<lparr>goals := [goalB, goalA]\<rparr>)) = mset (goals ?s)"
    using mset_AB by simp
  note t = implied_monthly_target [OF ne]
  from t x(1) v have a: "monthlyBudgetTarget ?s = 600"
    by simp
  from t p x have b: "monthlyBudgetTarget (freshLedger\<lparr>goals := [goalB, goalA]\<rparr>)
                      = monthlyBudgetTarget ?s"
    by blast
  from t a have c: "monthlyBudgetTarget (?s\<lparr>filterMonth := [], filterCategory := ''Travel''\<rparr>) = 600"
    by simp
  from ne exact_AB a b c show ?thesis
    by simp
qed

text \<open>
  Three goals with the targets 1000, 100 and 100: the fold gives the number just below 100,
  not the sum of the targets divided by 12, which is 100 in exact arithmetic and in
  binary64. With the goal of 1000 moved to the end it gives 100.
\<close>

theorem implied_monthly_target_counterexample:
  "goals (freshLedger\<lparr>goals := [goalE, goalF, goalG]\<rparr>) \<noteq> []
   \<and> monthlyBudgetTarget (freshLedger\<lparr>goals := [goalE, goalF, goalG]\<rparr>)
       = 7036874417766399 / 70368744177664
   \<and> sum_list (map target [goalE, goalF, goalG]) / 12 = 100
   \<and> targetSum12 [goalE, goalF, goalG] = 100
   \<and> mset [goalF, goalG, goalE] = mset [goalE, goalF, goalG]
   \<and> monthlyBudgetTarget (freshLedger\<lparr>goals := [goalF, goalG, goalE]\<rparr>) = 100
   \<and> monthlyBudgetTarget (freshLedger\<lparr>goals := [goalE, goalF, goalG]\<rparr>)
       \<noteq> monthlyBudgetTarget (freshLedger\<lparr>goals := [goalF, goalG, goalE]\<rparr>)"
  using fold_EFG fold_FGE sum_EFG mset_EFG by (simp add: monthlyBudgetTarget_def)

subsection \<open>Removing a transaction\<close>

text \<open>
  C8. Removing an identifier that no transaction of the ledger carries returns the ledger
  unchanged, and removing the same identifier a second time changes nothing more.
\<close>

theorem removeTransaction_absent:
  "((\<forall>t \<in> set (transactions s). tx_id t \<noteq> i) \<longrightarrow> removeTransaction i s = s)
   \<and> removeTransaction i (removeTransaction i s) = removeTransaction i s"
  by (simp add: removeTransaction_def filter_id_conv)

theorem removeTransaction_absent_witness:
  "''t9'' \<notin> set (map tx_id (transactions sampleLedger))
   \<and> removeTransaction ''t9'' sampleLedger = sampleLedger
   \<and> transactions sampleLedger = [txGym, txRent, txPay]"
proof -
  have a: "''t9'' \<notin> set (map tx_id (transactions sampleLedger))"
    by (simp add: sampleLedger_def txGym_def txRent_def txPay_def)
  have b: "\<forall>t \<in> set (transactions sampleLedger). tx_id t \<noteq> ''t9''"
    by (simp add: sampleLedger_def txGym_def txRent_def txPay_def)
  have n: "transactions sampleLedger = [txGym, txRent, txPay]"
    by (simp add: sampleLedger_def)
  from removeTransaction_absent [of sampleLedger "''t9''"] a b n
  show ?thesis by blast
qed

subsection \<open>Frame of import and of adding a transaction\<close>

text \<open>
  C10. \<open>importCSV\<close> and \<open>addTransaction\<close> leave the goal collection and the category
  registry as they were (and the two filter settings too): a category name met in an
  imported row is not registered. The import of \<^verbatim>\<open>App.jsx\<close> does the same.
\<close>

theorem import_add_frame:
  "goals (importCSV uuid csv s) = goals s
   \<and> categories (importCSV uuid csv s) = categories s
   \<and> filterMonth (importCSV uuid csv s) = filterMonth s
   \<and> filterCategory (importCSV uuid csv s) = filterCategory s
   \<and> goals (addTransaction newId tx s) = goals s
   \<and> categories (addTransaction newId tx s) = categories s
   \<and> filterMonth (addTransaction newId tx s) = filterMonth s
   \<and> filterCategory (addTransaction newId tx s) = filterCategory s
   \<and> goals (importCSV_App uuid csv s) = goals s
   \<and> categories (importCSV_App uuid csv s) = categories s"
  by (simp add: importCSV_def importCSV_App_def addTransaction_def)

subsection \<open>Sign of an imported amount\<close>

text \<open>
  C1, as the code has it. In the signed ledger, for a text whose first line is not a header,
  or whose header has no \<open>type\<close> column, the amount of every data row is
  \<^verbatim>\<open>parseFloat(amtStr) || 0\<close> with the sign the text has: a text that parses to a positive
  number gives that positive amount, a text that parses to a negative number gives that
  negative amount. The import of \<^verbatim>\<open>App.jsx\<close> stores the absolute value of the parsed
  amount instead, so its amounts are never negative.
\<close>

theorem import_sign_preserved:
  "\<not> csvHasType csv \<Longrightarrow> i < length (csvRows csv) \<Longrightarrow>
   parseFloat (amtStr (csvCols csv) (csvHasHeader csv) (csvRows csv ! i)) = a \<Longrightarrow>
     amount (parseCSV uuid csv ! i) = orNumOpt a 0
     \<and> (\<forall>v. a = Some v \<and> 0 < v \<longrightarrow>
            amount (parseCSV uuid csv ! i) = v \<and> 0 < amount (parseCSV uuid csv ! i))
     \<and> (\<forall>v. a = Some v \<and> v < 0 \<longrightarrow>
            amount (parseCSV uuid csv ! i) = v \<and> amount (parseCSV uuid csv ! i) < 0)
     \<and> (\<forall>j. j < length (csvRows_App csv) \<longrightarrow>
            amount (parseCSV_App uuid csv ! j) =
              orNumOpt (map_option abs (parseFloat
                (orStr (elemAt (map trim (splitOn CHR '','' (csvRows_App csv ! j))) 2) ''0''))) 0
            \<and> 0 \<le> amount (parseCSV_App uuid csv ! j))"
  by (auto simp: parseCSV_nth amount_parseRow parseCSV_App_nth amount_parseRow_App
        orNumOpt_def orNum_def split: option.splits)

theorem import_sign_preserved_witness:
  "\<not> csvHasType legacyCsv \<and> length (csvRows legacyCsv) = 2
   \<and> parseFloat (amtStr (csvCols legacyCsv) (csvHasHeader legacyCsv) (csvRows legacyCsv ! 0)) = Some 1500
   \<and> amount (parseCSV sampleIds legacyCsv ! 0) = 1500
   \<and> parseFloat (amtStr (csvCols legacyCsv) (csvHasHeader legacyCsv) (csvRows legacyCsv ! 1)) = Some (- 1200)
   \<and> amount (parseCSV sampleIds legacyCsv ! 1) = - 1200"
proof -
  have t: "\<not> csvHasType legacyCsv"
    by (simp add: csvHasType_def legacy_no_header)
  have n: "length (csvRows legacyCsv) = 2"
    by (simp add: legacy_rows)
  have i0: "0 < length (csvRows legacyCsv)" and i1: "1 < length (csvRows legacyCsv)"
    by (simp_all add: n)
  have a0: "parseFloat (amtStr (csvCols legacyCsv) (csvHasHeader legacyCsv) (csvRows legacyCsv ! 0)) = Some 1500"
    by (simp add: legacy_rows legacy_no_header legacy_amt0)
  have a1: "parseFloat (amtStr (csvCols legacyCsv) (csvHasHeader legacyCsv) (csvRows legacyCsv ! 1)) = Some (- 1200)"
    by (simp add: legacy_rows legacy_no_header legacy_amt1)
  have r0: "amount (parseCSV sampleIds legacyCsv ! 0) = 1500"
    using import_sign_preserved [OF t i0 a0, of sampleIds] by simp
  have r1: "amount (parseCSV sampleIds legacyCsv ! 1) = - 1200"
    using import_sign_preserved [OF t i1 a1, of sampleIds] by simp
  from t n a0 a1 r0 r1 show ?thesis
    by simp
qed

text \<open>
  The second legacy row through the import of \<^verbatim>\<open>App.jsx\<close>: the amount text \<^verbatim>\<open>-1200\<close>
  becomes the amount 1200.
\<close>

theorem import_sign_counterexample:
  "\<not> csvHasHeader_App legacyCsv
   \<and> parseFloat (orStr (elemAt (map trim (splitOn CHR '','' (csvRows_App legacyCsv ! 1))) 2) ''0'')
       = Some (- 1200)
   \<and> amount (parseCSV_App sampleIds legacyCsv ! 1) = 1200"
proof -
  have "amount (parseCSV_App sampleIds legacyCsv ! 1) = 1200"
    by (simp add: parseCSV_App_nth legacy_rows_App legacy_App_row1)
  moreover have "parseFloat (orStr (elemAt (map trim (splitOn CHR '','' (csvRows_App legacyCsv ! 1))) 2) ''0'')
       = Some (- 1200)"
    by (simp only: legacy_rows_App nth_Cons_Suc nth_Cons_0 One_nat_def legacy_App_field1)
  ultimately show ?thesis
    using legacy_no_header_App by blast
qed


text \<open>
  C2. When the first line is a header with a \<open>type\<close> column, the amount of every data row
  is set from the row's lower-cased type text \<open>ty\<close>: minus the absolute value of the
  parsed amount when \<open>ty\<close> starts with \<^verbatim>\<open>exp\<close>, the absolute value otherwise, whatever
  sign the amount text has.
\<close>

theorem import_type_overrides_sign:
  "csvHasType csv \<Longrightarrow> i < length (csvRows csv) \<Longrightarrow>
   amt = orNumOpt (parseFloat (amtStr (csvCols csv) (csvHasHeader csv) (csvRows csv ! i))) 0 \<Longrightarrow>
   ty = toLowerCase (orStr (elemAt (map trim (splitOn CHR '','' (csvRows csv ! i)))
                              (indexOf (csvCols csv) ''type'')) []) \<Longrightarrow>
     amount (parseCSV uuid csv ! i) = (if startsWith ty ''exp'' then - \<bar>amt\<bar> else \<bar>amt\<bar>)"
  by (simp add: parseCSV_nth amount_parseRow typeRaw_def)

theorem import_type_overrides_sign_witness:
  "csvHasType typedCsv \<and> 0 < length (csvRows typedCsv)
   \<and> orNumOpt (parseFloat (amtStr (csvCols typedCsv) (csvHasHeader typedCsv) (csvRows typedCsv ! 0))) 0
       = 45
   \<and> toLowerCase (orStr (elemAt (map trim (splitOn CHR '','' (csvRows typedCsv ! 0)))
                           (indexOf (csvCols typedCsv) ''type'')) []) = ''expense''
   \<and> amount (parseCSV sampleIds typedCsv ! 0) = - 45"
proof -
  have h: "csvHasType typedCsv"
    by code_simp
  have n: "0 < length (csvRows typedCsv)"
    by code_simp
  have a: "45 = orNumOpt (parseFloat
             (amtStr (csvCols typedCsv) (csvHasHeader typedCsv) (csvRows typedCsv ! 0))) 0"
    by code_simp
  have t: "''expense'' = toLowerCase (orStr (elemAt (map trim (splitOn CHR '','' (csvRows typedCsv ! 0)))
                           (indexOf (csvCols typedCsv) ''type'')) [])"
    by code_simp
  have "amount (parseCSV sampleIds typedCsv ! 0) = (if startsWith ''expense'' ''exp'' then - \<bar>45\<bar> else \<bar>45\<bar>)"
    by (rule import_type_overrides_sign [OF h n a t])
  then have "amount (parseCSV sampleIds typedCsv ! 0) = - 45"
    by simp
  with h n a t show ?thesis
    by simp
qed

subsection \<open>Category breakdown\<close>

lemma set_firstSeen [simp]: "set (firstSeen xs) = set xs"
  by (induction xs) auto

lemma distinct_firstSeen [simp]: "distinct (firstSeen xs)"
  by (induction xs) auto

lemma firstSeen_snoc:
  "firstSeen (ys @ [y]) = (if y \<in> set ys then firstSeen ys else firstSeen ys @ [y])"
  by (induction ys) auto

lemma mapSet_present:
  "distinct ks \<Longrightarrow> k \<in> set ks \<Longrightarrow>
   mapSet (map (\<lambda>k. (k, h k)) ks) k v = map (\<lambda>k'. (k', if k' = k then v else h k')) ks"
  by (induction ks) auto

lemma mapSet_absent:
  "k \<notin> set ks \<Longrightarrow> mapSet (map (\<lambda>k. (k, h k)) ks) k v = map (\<lambda>k. (k, h k)) ks @ [(k, v)]"
  by (induction ks) auto

lemma mapGet_tabulate:
  "mapGet (map (\<lambda>k. (k, h k)) ks) k = (if k \<in> set ks then Some (h k) else None)"
  by (induction ks) (auto simp: mapGet_def)

lemma sumOf_Nil [simp]: "sumOf f [] = 0"
  by (simp add: sumOf_def)

lemma sumOf_single [simp]: "sumOf f [x] = numAdd 0 (f x)"
  by (simp add: sumOf_def)

lemma sumOf_snoc [simp]: "sumOf f (xs @ [x]) = numAdd (sumOf f xs) (f x)"
  by (simp add: sumOf_def)

lemma filter_absent: "k \<notin> set (map catKey xs) \<Longrightarrow> filter (\<lambda>t. catKey t = k) xs = []"
  by (induction xs) auto

lemma addTo_breakdown: "addTo f (breakdown f xs) x = breakdown f (xs @ [x])"
proof (cases "catKey x \<in> set (map catKey xs)")
  case True
  then show ?thesis
    by (simp add: addTo_def breakdown_def firstSeen_snoc mapGet_tabulate mapSet_present
          orNumOpt_def)
next
  case False
  then show ?thesis
    by (simp add: addTo_def breakdown_def firstSeen_snoc mapGet_tabulate mapSet_absent
          orNumOpt_def filter_absent) auto
qed

lemma foldl_addTo: "foldl (addTo f) [] xs = breakdown f xs"
proof (induction xs rule: rev_induct)
  case Nil
  show ?case by (simp add: breakdown_def)
next
  case (snoc x xs)
  then show ?case by (simp add: addTo_breakdown)
qed

lemma foldl_cond:
  "foldl (\<lambda>m t. if P t then h m t else m) m xs = foldl h m (filter P xs)"
  by (induction xs arbitrary: m) auto

lemma byCat_breakdown:
  "byCat s = breakdown (\<lambda>t. \<bar>amount t\<bar>) (filter (\<lambda>t. amount t < 0) (filteredTx s))"
proof -
  have eq: "byCatStep = (\<lambda>m t. if amount t < 0 then addTo (\<lambda>t. \<bar>amount t\<bar>) m t else m)"
    by (simp add: byCatStep_def addTo_def fun_eq_iff)
  show ?thesis
    unfolding byCat_def eq by (simp add: foldl_cond foldl_addTo)
qed

lemma byCat_App_breakdown: "byCat_App s = breakdown amount (filteredTx s)"
proof -
  have eq: "byCatStep_App = addTo amount"
    by (simp add: byCatStep_App_def addTo_def fun_eq_iff)
  show ?thesis
    unfolding byCat_App_def eq by (simp add: foldl_addTo)
qed

lemma filtered_income: "filteredTx incomeLedger = [txPay]"
  by (simp add: filteredTx_def incomeLedger_def freshLedger_def txPay_def)

lemma filtered_sample: "filteredTx sampleLedger = [txRent, txPay]"
  by (simp add: filteredTx_def sampleLedger_def freshLedger_def txPay_def txRent_def txGym_def)

lemma sample_sums: "numAdd 0 1500 = 1500" "numAdd 0 1200 = 1200"
  by code_simp+

lemma byCat_App_income: "byCat_App incomeLedger = [(''Income'', 1500)]"
  by (simp add: byCat_App_def filtered_income byCatStep_App_def catKey_def orStr_def mapGet_def
        orNumOpt_def txPay_def sample_sums)

lemma byCat_sample: "byCat sampleLedger = [(''Rent/Mortgage'', 1200)]"
  by (simp add: byCat_def filtered_sample byCatStep_def catKey_def orStr_def mapGet_def
        orNumOpt_def txPay_def txRent_def sample_sums)

text \<open>
  C4, as the code has it. In the signed ledger the breakdown has one entry per category key
  (\<^verbatim>\<open>t.category || "Uncategorized"\<close>) of the expenses (amount below zero) among the
  filtered transactions, in first-seen order, holding the sum of their absolute amounts;
  when every filtered transaction has a non-negative amount it is empty. The breakdown of
  \<^verbatim>\<open>App.jsx\<close> sums the amounts of all filtered transactions per category key.
\<close>

theorem category_breakdown:
  "byCat s = breakdown (\<lambda>t. \<bar>amount t\<bar>) (filter (\<lambda>t. amount t < 0) (filteredTx s))
   \<and> (list_all (\<lambda>t. 0 \<le> amount t) (filteredTx s) \<longrightarrow> byCat s = [])
   \<and> byCat_App s = breakdown amount (filteredTx s)"
proof -
  have "list_all (\<lambda>t. 0 \<le> amount t) (filteredTx s) \<Longrightarrow> filter (\<lambda>t. amount t < 0) (filteredTx s) = []"
    by (auto simp: list_all_iff filter_empty_conv)
  then show ?thesis
    by (auto simp: byCat_breakdown byCat_App_breakdown breakdown_def)
qed


theorem category_breakdown_witness:
  "list_all (\<lambda>t. 0 \<le> amount t) (filteredTx incomeLedger)
   \<and> byCat incomeLedger = []
   \<and> filteredTx sampleLedger = [txRent, txPay]
   \<and> byCat sampleLedger = [(''Rent/Mortgage'', 1200)]
   \<and> breakdown (\<lambda>t. \<bar>amount t\<bar>) (filter (\<lambda>t. amount t < 0) (filteredTx sampleLedger))
       = [(''Rent/Mortgage'', 1200)]"
proof -
  have a: "list_all (\<lambda>t. 0 \<le> amount t) (filteredTx incomeLedger)"
    by (simp add: filtered_income txPay_def)
  have e: "byCat incomeLedger = []"
    using category_breakdown [of incomeLedger] a by blast
  have b: "breakdown (\<lambda>t. \<bar>amount t\<bar>) (filter (\<lambda>t. amount t < 0) (filteredTx sampleLedger))
           = [(''Rent/Mortgage'', 1200)]"
    using category_breakdown [of sampleLedger] byCat_sample by simp
  from a e b filtered_sample byCat_sample show ?thesis
    by simp
qed

text \<open>
  A filtered set holding the paycheck alone, an income: the breakdown of \<^verbatim>\<open>App.jsx\<close> is not
  empty.
\<close>

theorem category_breakdown_counterexample:
  "filteredTx incomeLedger = [txPay] \<and> 0 \<le> amount txPay
   \<and> byCat_App incomeLedger = [(''Income'', 1500)]"
  using filtered_income byCat_App_income by (simp add: txPay_def)

subsection \<open>Monthly trend\<close>












lemma set_insertBy [simp]: "set (insertBy c x xs) = insert x (set xs)"
  by (induction xs) auto

lemma mset_insertBy [simp]: "mset (insertBy c x xs) = add_mset x (mset xs)"
  by (induction xs) simp_all













subsubsection \<open>The sample collation\<close>











text \<open>Two imported dates that start with the name of the month: the sample collation puts
  \<open>apr\<close> before \<open>Feb\<close>, the order of the characters puts the capital letter first.\<close>

lemma byMonth_named:
  "map ym (byMonth collate namedMonthLedger) = [''apr-202'', ''Feb-202'']
   \<and> ''Feb-202'' < ''apr-202''"
  by code_simp



subsection \<open>Categories of the transactions\<close>

lemma registered_addCategory: "registered s c \<Longrightarrow> registered (addCategory nm s) c"
  by (auto simp: registered_def addCategory_def Let_def)

lemma transactions_addCategory [simp]: "transactions (addCategory nm s) = transactions s"
  by (simp add: addCategory_def Let_def)

lemma registered_categories:
  "categories s' = categories s \<Longrightarrow> registered s' c = registered s c"
  by (simp add: registered_def)

lemma catInv_importCSV:
  "catInv s \<Longrightarrow>
   catInv (importCSV uuid csv s) \<longleftrightarrow> list_all (\<lambda>t. registered s (category t)) (parseCSV uuid csv)"
  by (auto simp: catInv_def importCSV_def registered_def parseCSV_def)

lemma catInv_addTransaction:
  "catInv s \<Longrightarrow> catInv (addTransaction newId tx s) \<longleftrightarrow> registered s (category tx)"
  by (simp add: catInv_def addTransaction_def registered_def)

lemma catInv_removeTransaction: "catInv s \<Longrightarrow> catInv (removeTransaction i s)"
  by (auto simp: catInv_def removeTransaction_def registered_def list_all_iff)

lemma catInv_addCategory: "catInv s \<Longrightarrow> catInv (addCategory nm s)"
  by (auto simp: catInv_def list_all_iff intro: registered_addCategory)

lemma catInv_goals:
  "catInv s \<Longrightarrow> catInv (addGoal newId g s) \<and> catInv (removeGoal i s)"
  by (simp add: catInv_def addGoal_def removeGoal_def registered_def)

lemma catInv_resetAll: "catInv s \<Longrightarrow> catInv (resetAll confirmed s)"
  by (simp add: catInv_def resetAll_def registered_def)

lemma salary_lines: "csvLines salaryCsv = [''2024-01-05,Paycheck,1500,Salary'']"
  by code_simp

lemma salary_no_header: "\<not> csvHasHeader salaryCsv"
  by code_simp

lemma salary_rows: "csvRows salaryCsv = [''2024-01-05,Paycheck,1500,Salary'']"
  by (simp add: csvRows_def salary_no_header salary_lines)

lemma salary_category:
  "category (parseRow cols False ht newId ''2024-01-05,Paycheck,1500,Salary'') = ''Salary''"
proof -
  have "orStr (elemAt (map trim (splitOn CHR '','' ''2024-01-05,Paycheck,1500,Salary'')) 3) ''Other''
        = ''Salary''"
    by code_simp
  then show ?thesis
    by (simp only: parseRow_def Let_def if_False transaction.select_convs)
qed

lemma salary_parsed:
  "map category (parseCSV sampleIds salaryCsv) = [''Salary'']"
  by (simp add: parseCSV_def salary_lines salary_rows salary_no_header salary_category)

lemma fresh_inv: "catInv freshLedger"
  by (simp add: catInv_def freshLedger_def)

lemma salary_not_registered: "\<not> registered freshLedger ''Salary''"
  by (simp add: registered_def freshLedger_def DEFAULT_CATEGORIES_def)

text \<open>
  C9, as the code has it. The invariant that every transaction's category is a name of the
  registry or one of the defaults \<^verbatim>\<open>Other\<close> and \<^verbatim>\<open>Uncategorized\<close> is preserved by
  \<open>removeTransaction\<close>, \<open>addGoal\<close>, \<open>removeGoal\<close>, \<open>addCategory\<close> and \<open>resetAll\<close>. It is
  preserved by \<open>addTransaction\<close> exactly when the category of the new transaction meets the
  condition, and by \<open>importCSV\<close> exactly when the category of every parsed row does: the
  import takes the category text of a row as it is and does not look at the registry.
\<close>

theorem category_invariant:
  "catInv s \<Longrightarrow>
     catInv (removeTransaction i s)
     \<and> catInv (addGoal newId g s)
     \<and> catInv (removeGoal i s)
     \<and> catInv (addCategory nm s)
     \<and> catInv (resetAll confirmed s)
     \<and> (catInv (addTransaction newId tx s) \<longleftrightarrow> registered s (category tx))
     \<and> (catInv (importCSV uuid csv s) \<longleftrightarrow>
          list_all (\<lambda>t. registered s (category t)) (parseCSV uuid csv))"
  by (simp add: catInv_removeTransaction catInv_goals catInv_addCategory catInv_resetAll
        catInv_addTransaction catInv_importCSV)

theorem category_invariant_witness:
  "catInv sampleLedger
   \<and> catInv (removeTransaction ''t2'' sampleLedger)
   \<and> catInv (addCategory ''Salary'' sampleLedger)
   \<and> registered sampleLedger (category txPay)
   \<and> catInv (addTransaction ''t4'' txPay sampleLedger)
   \<and> \<not> list_all (\<lambda>t. registered sampleLedger (category t)) (parseCSV sampleIds salaryCsv)
   \<and> \<not> catInv (importCSV sampleIds salaryCsv sampleLedger)"
proof -
  have inv: "catInv sampleLedger"
    by (simp add: catInv_def sampleLedger_def freshLedger_def registered_def DEFAULT_CATEGORIES_def
          txGym_def txRent_def txPay_def)
  have r: "registered sampleLedger (category txPay)"
    by (simp add: sampleLedger_def freshLedger_def registered_def DEFAULT_CATEGORIES_def txPay_def)
  have "list_all (\<lambda>t. registered sampleLedger (category t)) (parseCSV sampleIds salaryCsv)
        = list_all (registered sampleLedger) (map category (parseCSV sampleIds salaryCsv))"
    by (simp add: list_all_iff)
  then have n: "\<not> list_all (\<lambda>t. registered sampleLedger (category t)) (parseCSV sampleIds salaryCsv)"
    by (simp add: salary_parsed registered_def sampleLedger_def freshLedger_def DEFAULT_CATEGORIES_def)
  from category_invariant [OF inv, of "''t2''" "''t4''" goalA "''Salary''" True txPay sampleIds salaryCsv]
    inv r n
  show ?thesis
    by simp
qed


text \<open>
  Importing a row of category \<^verbatim>\<open>Salary\<close> into the fresh ledger, which meets the invariant,
  gives a ledger that does not.
\<close>

theorem category_invariant_counterexample:
  "catInv freshLedger \<and> \<not> catInv (importCSV sampleIds salaryCsv freshLedger)"
proof -
  have "list_all (\<lambda>t. registered freshLedger (category t)) (parseCSV sampleIds salaryCsv)
        = list_all (registered freshLedger) (map category (parseCSV sampleIds salaryCsv))"
    by (simp add: list_all_iff)
  then have "\<not> list_all (\<lambda>t. registered freshLedger (category t)) (parseCSV sampleIds salaryCsv)"
    by (simp add: salary_parsed salary_not_registered)
  then have "\<not> catInv (importCSV sampleIds salaryCsv freshLedger)"
    by (simp add: catInv_importCSV [OF fresh_inv])
  with fresh_inv show ?thesis by simp
qed


subsection \<open>Export followed by import\<close>




lemma digitsOf_nonempty: "digitsOf n \<noteq> []"
  by (subst digitsOf.simps) simp















































subsection \<open>The conditions on white space, date and category\<close>

text \<open>
  A description that starts with a no-break space loses it in the import, as one that
  starts with a space does: it is not safe for the round trip.
\<close>

lemma nbsp_trim: "trim (description txNbsp) = ''Rent''"
  by code_simp

lemma nbsp_trimmed: "trim (description txNbsp) \<noteq> description txNbsp \<and> \<not> roundTripSafe txNbsp"
  unfolding roundTripSafe_def nbsp_trim by (simp add: txNbsp_def)

text \<open>
  A date of more than ten characters comes back cut to ten, and a blank category comes
  back as \<^verbatim>\<open>Other\<close>.
\<close>

lemma long_date_export:
  "exportCSV (freshLedger\<lparr>transactions := [txLongDate]\<rparr>) =
     ''date,description,amount,category,type\<newline>2024-01-06T09:30,Rent,-1200,Rent/Mortgage,expense''"
  by code_simp

lemma long_date_parse:
  "map date (parseCSV sampleIds
     ''date,description,amount,category,type\<newline>2024-01-06T09:30,Rent,-1200,Rent/Mortgage,expense'')
   = [''2024-01-06'']"
  by code_simp

lemma roundtrip_long_date:
  "map date (parseCSV sampleIds (exportCSV (freshLedger\<lparr>transactions := [txLongDate]\<rparr>)))
     \<noteq> map date [txLongDate]"
  unfolding long_date_export long_date_parse by (simp add: txLongDate_def)

lemma blank_category_export:
  "exportCSV (freshLedger\<lparr>transactions := [txBlankCat]\<rparr>) =
     ''date,description,amount,category,type\<newline>2024-01-06,Rent,-1200,,expense''"
  by code_simp

lemma blank_category_parse:
  "map category (parseCSV sampleIds
     ''date,description,amount,category,type\<newline>2024-01-06,Rent,-1200,,expense'')
   = [''Other'']"
  by code_simp

lemma roundtrip_blank_category:
  "map category (parseCSV sampleIds (exportCSV (freshLedger\<lparr>transactions := [txBlankCat]\<rparr>)))
     \<noteq> map category [txBlankCat]"
  unfolding blank_category_export blank_category_parse by (simp add: txBlankCat_def)

subsection \<open>Which amounts are printable\<close>

text \<open>
  Reading a printed number gives the number cut after 17 significant digits, so the
  printable numbers are exactly those of at most 17 significant digits; every amount in
  whole cents below \<open>10\<^sup>1\<^sup>3\<close> in absolute value is one.
\<close>

lemma scale10_powi: "scale10 m e = m * 10 powi e"
  by (simp add: scale10_def power_int_def field_simps power_inverse)

lemma digit_table2:
  "list_all (\<lambda>n. isDigit (''0123456789'' ! n) \<and> digitVal (''0123456789'' ! n) = int n) [0..<10]"
  by code_simp

lemma digitChar_digit: "0 \<le> d \<Longrightarrow> d < 10 \<Longrightarrow> isDigit (digitChar d) \<and> digitVal (digitChar d) = d"
proof -
  assume "0 \<le> d" "d < 10"
  then have "nat d \<in> set [0..<10]" "int (nat d) = d" by simp_all
  with digit_table2 show ?thesis
    unfolding list_all_iff digitChar_def by metis
qed

lemma digitsOf_digits: "0 \<le> n \<Longrightarrow> list_all isDigit (digitsOf n)"
proof (induction n rule: digitsOf.induct)
  case (1 n)
  show ?case
  proof (cases "n < 10")
    case True
    with 1 show ?thesis
      by (subst digitsOf.simps) (simp add: digitChar_digit)
  next
    case False
    have "0 \<le> n mod 10" "n mod 10 < 10" by simp_all
    with False 1 show ?thesis
      by (subst digitsOf.simps) (simp add: digitChar_digit)
  qed
qed

lemma digitsVal_snoc: "digitsVal (ds @ [c]) = 10 * digitsVal ds + digitVal c"
  by (simp add: digitsVal_def)

lemma digitsVal_digitsOf: "0 \<le> n \<Longrightarrow> digitsVal (digitsOf n) = n"
proof (induction n rule: digitsOf.induct)
  case (1 n)
  show ?case
  proof (cases "n < 10")
    case True
    with 1 show ?thesis
      by (subst digitsOf.simps) (simp add: digitChar_digit digitsVal_def)
  next
    case False
    have "0 \<le> n mod 10" "n mod 10 < 10" by simp_all
    with False 1 show ?thesis
      by (subst digitsOf.simps) (simp add: digitChar_digit digitsVal_snoc)
  qed
qed

lemma digitsVal_append: "digitsVal (a @ b) = digitsVal a * 10 ^ length b + digitsVal b"
proof (induction b rule: rev_induct)
  case Nil
  show ?case by (simp add: digitsVal_def)
next
  case (snoc c b)
  have "digitsVal (a @ b @ [c]) = 10 * digitsVal (a @ b) + digitVal c"
    using digitsVal_snoc [of "a @ b" c] by simp
  then show ?case
    by (simp add: snoc digitsVal_snoc algebra_simps)
qed

lemma digitVal_zero: "digitVal CHR ''0'' = 0" and isDigit_zero: "isDigit CHR ''0''"
  by code_simp+

lemma digitsVal_zeros: "digitsVal (replicate z CHR ''0'') = 0"
  by (induction z) (simp_all add: digitsVal_def digitVal_zero)

lemma digitsOf_length_bounds:
  "0 < n \<Longrightarrow> 10 ^ (length (digitsOf n) - 1) \<le> n \<and> n < 10 ^ length (digitsOf n)"
proof (induction n rule: digitsOf.induct)
  case (1 n)
  show ?case
  proof (cases "n < 10")
    case True
    with 1 show ?thesis
      by (subst digitsOf.simps, subst (2) digitsOf.simps) simp
  next
    case False
    then have pos: "0 < n div 10" by simp
    let ?L = "length (digitsOf (n div 10))"
    from 1 False pos have ih: "10 ^ (?L - 1) \<le> n div 10" "n div 10 < 10 ^ ?L"
      by simp_all
    have L1: "1 \<le> ?L"
      by (subst digitsOf.simps) simp
    have len: "length (digitsOf n) = ?L + 1"
      using False by (subst digitsOf.simps) simp
    have "10 * 10 ^ (?L - 1) \<le> 10 * (n div 10)"
      using ih(1) by simp
    moreover have "(10::int) * 10 ^ (?L - 1) = 10 ^ ?L"
      using L1 by (cases ?L) simp_all
    moreover have "10 * (n div 10) \<le> n"
      by presburger
    ultimately have lo: "10 ^ ?L \<le> n" by linarith
    have "n div 10 + 1 \<le> 10 ^ ?L"
      using ih(2) by simp
    then have "10 * (n div 10) + 10 \<le> 10 * 10 ^ ?L" by simp
    moreover have "n < 10 * (n div 10) + 10"
      by presburger
    ultimately have hi: "n < 10 ^ (?L + 1)" by simp
    from lo hi show ?thesis
      by (simp add: len)
  qed
qed

lemma digitsOf_length_eq:
  assumes "0 < n" "1 \<le> d" "10 ^ (d - 1) \<le> n" "n < 10 ^ d"
  shows "length (digitsOf n) = d"
proof -
  let ?L = "length (digitsOf n)"
  have L1: "1 \<le> ?L"
    by (subst digitsOf.simps) simp
  from digitsOf_length_bounds [OF assms(1)]
  have b: "10 ^ (?L - 1) \<le> n" "n < 10 ^ ?L" by simp_all
  have "(10::int) ^ (?L - 1) < 10 ^ d"
    using b(1) assms(4) by linarith
  then have 1: "?L - 1 < d"
    by (simp add: power_strict_increasing_iff)
  have "(10::int) ^ (d - 1) < 10 ^ ?L"
    using b(2) assms(3) by linarith
  then have 2: "d - 1 < ?L"
    by (simp add: power_strict_increasing_iff)
  from 1 2 L1 assms(2) show ?thesis by linarith
qed

lemma powi_nat_pred: "1 \<le> L \<Longrightarrow> (10::rat) powi (int L - 1) = 10 ^ (L - 1)"
proof -
  assume "1 \<le> L"
  then have "int L - 1 = int (L - 1)" by simp
  then show ?thesis by (simp only: power_int_of_nat)
qed

lemma decExp_bounds:
  assumes "0 < x"
  shows "10 powi (decExp x - 1) \<le> x \<and> x < 10 powi (decExp x)"
proof (cases "1 \<le> x")
  case True
  let ?m = "\<lfloor>x\<rfloor>"
  let ?L = "length (digitsOf ?m)"
  have m: "0 < ?m" using True by simp
  have L1: "1 \<le> ?L"
    by (subst digitsOf.simps) simp
  from digitsOf_length_bounds [OF m]
  have b: "10 ^ (?L - 1) \<le> ?m" "?m + 1 \<le> 10 ^ ?L" by simp_all
  have "(of_int (10 ^ (?L - 1)) :: rat) \<le> of_int ?m"
    using b(1) by (simp only: of_int_le_iff)
  also have "\<dots> \<le> x" by simp
  finally have lo: "(10::rat) ^ (?L - 1) \<le> x" by simp
  have "x < of_int (?m + 1)" using floor_correct [of x] by blast
  also have "\<dots> \<le> of_int (10 ^ ?L)"
    using b(2) by (simp only: of_int_le_iff)
  finally have hi: "x < (10::rat) ^ ?L" by simp
  have d: "decExp x = int ?L"
    using True by (simp add: decExp_def)
  show ?thesis
    using lo hi by (simp add: d powi_nat_pred [OF L1])
next
  case False
  let ?y = "\<lfloor>1 / x\<rfloor>"
  let ?L = "length (digitsOf ?y)"
  let ?n0 = "1 - int ?L"
  from False assms have inv: "1 < 1 / x" by (simp add: field_simps)
  then have y: "0 < ?y" by simp
  have L1: "1 \<le> ?L"
    by (subst digitsOf.simps) simp
  from digitsOf_length_bounds [OF y]
  have b: "10 ^ (?L - 1) \<le> ?y" "?y + 1 \<le> 10 ^ ?L" by simp_all
  have "(of_int (10 ^ (?L - 1)) :: rat) \<le> of_int ?y"
    using b(1) by (simp only: of_int_le_iff)
  also have "\<dots> \<le> 1 / x" by simp
  finally have "(10::rat) ^ (?L - 1) \<le> 1 / x" by simp
  then have "x * 10 ^ (?L - 1) \<le> 1"
    using assms by (simp add: field_simps)
  then have up: "x \<le> 10 powi ?n0"
  proof -
    assume a: "x * 10 ^ (?L - 1) \<le> 1"
    have "?n0 = - int (?L - 1)" using L1 by simp
    then have eq: "(10::rat) powi ?n0 = 1 / 10 ^ (?L - 1)"
      by (simp only: power_int_minus_divide power_int_of_nat)
    have "x \<le> 1 / 10 ^ (?L - 1)"
      using a by (simp add: pos_le_divide_eq)
    then show ?thesis by (simp only: eq)
  qed
  have "1 / x < of_int (?y + 1)" using floor_correct [of "1 / x"] by blast
  also have "\<dots> \<le> of_int (10 ^ ?L)"
    using b(2) by (simp only: of_int_le_iff)
  finally have "1 / x < (10::rat) ^ ?L" by simp
  then have "1 < x * 10 ^ ?L"
    using assms by (simp add: field_simps)
  then have lo: "10 powi (?n0 - 1) < x"
  proof -
    assume a: "1 < x * 10 ^ ?L"
    have "?n0 - 1 = - int ?L" by simp
    then have eq: "(10::rat) powi (?n0 - 1) = 1 / 10 ^ ?L"
      by (simp only: power_int_minus_divide power_int_of_nat)
    have "1 / 10 ^ ?L < x"
      using a by (simp add: pos_divide_less_eq)
    then show ?thesis by (simp only: eq)
  qed
  have d: "decExp x = (if 10 powi ?n0 \<le> x then ?n0 + 1 else ?n0)"
    using False by (simp add: decExp_def Let_def scale10_powi)
  show ?thesis
  proof (cases "10 powi ?n0 \<le> x")
    case True
    with up have eq: "x = 10 powi ?n0" by simp
    have "(10::rat) powi ?n0 < 10 powi (?n0 + 1)"
      by (rule power_int_strict_increasing) simp_all
    with True eq d show ?thesis by simp
  next
    case False
    with lo d show ?thesis by simp
  qed
qed

lemma sig_digits_17:
  assumes "0 < x"
  shows "length (digitsOf \<lfloor>scale10 x (17 - decExp x)\<rfloor>) = 17"
    and "0 < \<lfloor>scale10 x (17 - decExp x)\<rfloor>"
proof -
  let ?n = "decExp x"
  let ?v = "x * 10 powi (17 - ?n)"
  from decExp_bounds [OF assms] have b: "10 powi (?n - 1) \<le> x" "x < 10 powi ?n" by simp_all
  have p: "(0::rat) < 10 powi (17 - ?n)" by simp
  have "10 powi (?n - 1) * 10 powi (17 - ?n) \<le> ?v"
    using b(1) p by (simp only: mult_le_cancel_right_pos)
  moreover have "(10::rat) powi (?n - 1) * 10 powi (17 - ?n) = 10 powi 16"
    by (simp add: power_int_add [symmetric])
  ultimately have lo: "10 ^ 16 \<le> ?v" by simp
  have "?v < 10 powi ?n * 10 powi (17 - ?n)"
    using b(2) p by (simp only: mult_less_cancel_right_pos)
  moreover have "(10::rat) powi ?n * 10 powi (17 - ?n) = 10 powi 17"
    by (simp add: power_int_add [symmetric])
  ultimately have hi: "?v < 10 ^ 17" by simp
  have flo: "10 ^ 16 \<le> \<lfloor>?v\<rfloor>"
    using lo by (simp add: le_floor_iff)
  have fhi: "\<lfloor>?v\<rfloor> < 10 ^ 17"
    using hi by (simp add: floor_less_iff)
  show pos: "0 < \<lfloor>scale10 x (17 - decExp x)\<rfloor>"
    using flo by (simp add: scale10_powi)
  show "length (digitsOf \<lfloor>scale10 x (17 - decExp x)\<rfloor>) = 17"
    using flo fhi pos by (intro digitsOf_length_eq) (simp_all add: scale10_powi)
qed

lemma stripZeros_props:
  "0 < n \<Longrightarrow>
     0 < stripZeros n
     \<and> length (digitsOf (stripZeros n)) \<le> length (digitsOf n)
     \<and> n = stripZeros n * 10 ^ (length (digitsOf n) - length (digitsOf (stripZeros n)))"
proof (induction n rule: stripZeros.induct)
  case (1 n)
  show ?case
  proof (cases "n mod 10 = 0")
    case False
    then show ?thesis
      using 1(2) by (subst stripZeros.simps, subst (2) stripZeros.simps, subst (3) stripZeros.simps,
          subst (4) stripZeros.simps) simp
  next
    case True
    with 1(2) have ge: "\<not> n < 10" by presburger
    then have pos: "0 < n div 10" by simp
    have s: "stripZeros n = stripZeros (n div 10)"
      using True 1(2) by (subst stripZeros.simps) simp
    have len: "length (digitsOf n) = length (digitsOf (n div 10)) + 1"
      using ge by (subst digitsOf.simps) simp
    from 1(1) True 1(2) pos
    have ih: "0 < stripZeros (n div 10)"
      "length (digitsOf (stripZeros (n div 10))) \<le> length (digitsOf (n div 10))"
      "n div 10 = stripZeros (n div 10)
         * 10 ^ (length (digitsOf (n div 10)) - length (digitsOf (stripZeros (n div 10))))"
      by simp_all
    have n: "n = 10 * (n div 10)" using True by presburger
    have "n = stripZeros (n div 10)
         * 10 ^ (length (digitsOf (n div 10)) + 1 - length (digitsOf (stripZeros (n div 10))))"
      using ih(2) ih(3) n by (simp add: Suc_diff_le)
    with ih show ?thesis
      by (simp add: s len)
  qed
qed

lemma not_digit_chars:
  "\<not> isDigit CHR ''-''" "\<not> isDigit CHR ''+''" "\<not> isDigit CHR ''.''" "\<not> isDigit CHR ''e''"
  "\<not> isDigit (CHR 0x09)" "\<not> isDigit (CHR 0x0A)" "\<not> isDigit (CHR 0x0B)" "\<not> isDigit (CHR 0x0C)"
  "\<not> isDigit (CHR 0x0D)" "\<not> isDigit CHR '' ''" "\<not> isDigit (CHR 0xA0)"
  by code_simp+

lemma digit_not_space: "isDigit c \<Longrightarrow> \<not> isWhiteSpace c"
  using not_digit_chars by (auto simp: isWhiteSpace_def)

lemma readSign_digit: "isDigit c \<Longrightarrow> readSign (c # cs) = (False, c # cs)"
  using not_digit_chars by auto

lemma takeWhile_digits_end:
  "list_all isDigit ip \<Longrightarrow> r = [] \<or> \<not> isDigit (hd r) \<Longrightarrow> takeWhile isDigit (ip @ r) = ip"
  by (cases r) (auto simp: list_all_iff takeWhile_append2)

lemma dropWhile_digits_end:
  "list_all isDigit ip \<Longrightarrow> r = [] \<or> \<not> isDigit (hd r) \<Longrightarrow> dropWhile isDigit (ip @ r) = r"
  by (cases r) (auto simp: list_all_iff dropWhile_append2)

lemma readUnsigned_int:
  assumes "ip \<noteq> []" "list_all isDigit ip" "r = [] \<or> (\<not> isDigit (hd r) \<and> hd r \<noteq> CHR ''.'')"
  shows "readUnsigned (ip @ r) = Some (scale10 (of_int (digitsVal ip)) (readExponent r))"
proof -
  have t: "takeWhile isDigit (ip @ r) = ip" and d: "dropWhile isDigit (ip @ r) = r"
    using assms by (auto intro: takeWhile_digits_end dropWhile_digits_end)
  have nd: "\<not> (r \<noteq> [] \<and> hd r = CHR ''.'')"
    using assms(3) by auto
  show ?thesis
    unfolding readUnsigned_def t d Let_def using nd assms(1) by auto
qed

lemma readUnsigned_frac:
  assumes "ip \<noteq> []" "list_all isDigit ip" "list_all isDigit fp" "r = [] \<or> \<not> isDigit (hd r)"
  shows "readUnsigned (ip @ ''.'' @ fp @ r)
           = Some (scale10 (of_int (digitsVal (ip @ fp))) (readExponent r - int (length fp)))"
proof -
  have t: "takeWhile isDigit (ip @ ''.'' @ fp @ r) = ip"
    and d: "dropWhile isDigit (ip @ ''.'' @ fp @ r) = ''.'' @ fp @ r"
    using assms(2) not_digit_chars(3)
    by (auto intro!: takeWhile_digits_end dropWhile_digits_end)
  have t2: "takeWhile isDigit (fp @ r) = fp" and d2: "dropWhile isDigit (fp @ r) = r"
    using assms(3,4) by (auto intro: takeWhile_digits_end dropWhile_digits_end)
  show ?thesis
    unfolding readUnsigned_def t d Let_def using assms(1) by (simp add: t2 d2)
qed

lemma readExponent_signed:
  assumes "list_all isDigit ds" "ds \<noteq> []"
  shows "readExponent (''e'' @ ''-'' @ ds) = - digitsVal ds"
    and "readExponent (''e'' @ ''+'' @ ds) = digitsVal ds"
proof -
  have t: "takeWhile isDigit ds = ds"
    using assms(1) by (simp add: list_all_iff)
  show "readExponent (''e'' @ ''-'' @ ds) = - digitsVal ds"
    and "readExponent (''e'' @ ''+'' @ ds) = digitsVal ds"
    using assms(2) by (simp_all add: t)
qed

lemma readExponent_text: "readExponent (exponentText e) = e"
proof (cases "e < 0")
  case True
  have "readExponent (''e'' @ ''-'' @ digitsOf \<bar>e\<bar>) = - digitsVal (digitsOf \<bar>e\<bar>)"
    by (rule readExponent_signed) (simp_all add: digitsOf_digits digitsOf_nonempty)
  also have "\<dots> = - \<bar>e\<bar>"
    by (simp only: digitsVal_digitsOf [OF abs_ge_zero])
  finally show ?thesis
    using True by (simp add: exponentText_def)
next
  case False
  have "readExponent (''e'' @ ''+'' @ digitsOf \<bar>e\<bar>) = digitsVal (digitsOf \<bar>e\<bar>)"
    by (rule readExponent_signed) (simp_all add: digitsOf_digits digitsOf_nonempty)
  also have "\<dots> = \<bar>e\<bar>"
    by (simp only: digitsVal_digitsOf [OF abs_ge_zero])
  finally show ?thesis
    using False by (simp add: exponentText_def)
qed

lemma exponentText_head: "\<not> isDigit (hd (exponentText e)) \<and> hd (exponentText e) \<noteq> CHR ''.''"
  using not_digit_chars(4) by (simp add: exponentText_def)

lemma parseFloat_digit_head:
  "isDigit c \<Longrightarrow> parseFloat (c # cs) = readUnsigned (c # cs)"
  by (simp add: parseFloat_def digit_not_space readSign_digit option.map_ident del: readSign.simps)

lemma parseFloat_minus:
  "isDigit c \<Longrightarrow> parseFloat (CHR ''-'' # c # cs) = map_option uminus (readUnsigned (c # cs))"
proof -
  have "\<not> isWhiteSpace CHR ''-''" by (simp add: isWhiteSpace_def)
  then show ?thesis
    by (simp add: parseFloat_def)
qed

lemma scale10_int: "scale10 (of_int a) e = of_int a * 10 powi e"
  by (rule scale10_powi)

lemma scale10_0: "scale10 m 0 = m"
  by (simp add: scale10_def)

lemma digits_head: "list_all isDigit ds \<Longrightarrow> ds \<noteq> [] \<Longrightarrow> \<exists>c cs. ds = c # cs \<and> isDigit c"
  by (cases ds) auto

lemma readUnsigned_posToString:
  assumes "0 < x"
  shows "readUnsigned (posToString x) = Some (approx17 x)
         \<and> (\<exists>c cs. posToString x = c # cs \<and> isDigit c)"
proof -
  let ?n = "decExp x"
  let ?fl = "\<lfloor>scale10 x (17 - ?n)\<rfloor>"
  let ?s = "stripZeros ?fl"
  let ?ds = "digitsOf ?s"
  let ?k = "length ?ds"
  note s17 = sig_digits_17 [OF assms]
  have spos: "0 < ?s" and kle: "?k \<le> 17" and s0: "?fl = ?s * 10 ^ (17 - ?k)"
    using stripZeros_props [OF s17(2)] unfolding s17(1) by blast+
  have dg: "list_all isDigit ?ds" and val: "digitsVal ?ds = ?s" and ne: "?ds \<noteq> []"
    using spos by (simp_all add: digitsOf_digits digitsVal_digitsOf digitsOf_nonempty)
  have k1: "1 \<le> ?k"
    using ne by (cases ?ds) simp_all
  obtain c cs where hd: "?ds = c # cs" "isDigit c"
    using digits_head [OF dg ne] by blast
  have target: "approx17 x = of_int ?s * 10 powi (?n - int ?k)"
  proof -
    have "approx17 x = of_int ?fl * 10 powi (?n - 17)"
      unfolding approx17_def by (rule scale10_powi)
    also have "of_int ?fl = (of_int (?s * 10 ^ (17 - ?k)) :: rat)"
      using s0 by simp
    also have "of_int (?s * 10 ^ (17 - ?k)) * 10 powi (?n - 17)
                 = of_int ?s * (10 powi int (17 - ?k) * 10 powi (?n - 17))"
      by (simp add: mult.assoc)
    also have "10 powi int (17 - ?k) * 10 powi (?n - 17) = (10::rat) powi (?n - int ?k)"
      using kle by (simp add: power_int_add [symmetric] of_nat_diff del: power_int_of_nat)
    finally show ?thesis .
  qed
  have pdef: "posToString x =
      (if int ?k \<le> ?n \<and> ?n \<le> 21 then ?ds @ replicate (nat (?n - int ?k)) CHR ''0''
         else if 0 < ?n \<and> ?n \<le> 21 then take (nat ?n) ?ds @ ''.'' @ drop (nat ?n) ?ds
         else if - 6 < ?n \<and> ?n \<le> 0 then ''0.'' @ replicate (nat (- ?n)) CHR ''0'' @ ?ds
         else if int ?k = 1 then ?ds @ exponentText (?n - 1)
         else take 1 ?ds @ ''.'' @ drop 1 ?ds @ exponentText (?n - 1))"
    by (simp add: posToString_def Let_def)
  consider (a) "int ?k \<le> ?n \<and> ?n \<le> 21"
    | (b) "\<not> (int ?k \<le> ?n \<and> ?n \<le> 21)" "0 < ?n \<and> ?n \<le> 21"
    | (c) "\<not> (int ?k \<le> ?n \<and> ?n \<le> 21)" "\<not> (0 < ?n \<and> ?n \<le> 21)" "- 6 < ?n \<and> ?n \<le> 0"
    | (d) "\<not> (int ?k \<le> ?n \<and> ?n \<le> 21)" "\<not> (0 < ?n \<and> ?n \<le> 21)" "\<not> (- 6 < ?n \<and> ?n \<le> 0)"
          "int ?k = 1"
    | (e) "\<not> (int ?k \<le> ?n \<and> ?n \<le> 21)" "\<not> (0 < ?n \<and> ?n \<le> 21)" "\<not> (- 6 < ?n \<and> ?n \<le> 0)"
          "int ?k \<noteq> 1"
    by blast
  then show ?thesis
  proof cases
    case a
    let ?z = "nat (?n - int ?k)"
    have p: "posToString x = (?ds @ replicate ?z CHR ''0'') @ []"
      using a unfolding pdef by auto
    have dz: "list_all isDigit (?ds @ replicate ?z CHR ''0'')"
      using dg by (auto simp: list_all_iff isDigit_zero)
    have "readUnsigned (posToString x)
            = Some (scale10 (of_int (digitsVal (?ds @ replicate ?z CHR ''0''))) (readExponent []))"
      unfolding p by (rule readUnsigned_int [OF _ dz]) (simp_all add: ne)
    also have "digitsVal (?ds @ replicate ?z CHR ''0'') = ?s * 10 ^ ?z"
      by (simp add: digitsVal_append digitsVal_zeros val)
    also have "scale10 (of_int (?s * 10 ^ ?z)) (readExponent []) = of_int ?s * 10 powi (?n - int ?k)"
      using a by (simp add: scale10_0 power_int_def)
    finally have "readUnsigned (posToString x) = Some (approx17 x)"
      by (simp only: target)
    moreover have "posToString x = c # (cs @ replicate ?z CHR ''0'')"
      using p hd(1) by simp
    ultimately show ?thesis using hd(2) by blast
  next
    case b
    then have nk: "nat ?n < ?k" "0 < nat ?n" by linarith+
    have p: "posToString x = take (nat ?n) ?ds @ ''.'' @ drop (nat ?n) ?ds @ []"
      using b unfolding pdef by auto
    have "readUnsigned (posToString x)
            = Some (scale10 (of_int (digitsVal (take (nat ?n) ?ds @ drop (nat ?n) ?ds)))
                (readExponent [] - int (length (drop (nat ?n) ?ds))))"
      unfolding p using dg nk ne
      by (intro readUnsigned_frac) (auto simp: list_all_iff dest: in_set_takeD in_set_dropD)
    also have "scale10 (of_int (digitsVal (take (nat ?n) ?ds @ drop (nat ?n) ?ds)))
                (readExponent [] - int (length (drop (nat ?n) ?ds)))
               = of_int ?s * 10 powi (?n - int ?k)"
      using nk by (simp add: val scale10_int of_nat_diff)
    finally have "readUnsigned (posToString x) = Some (approx17 x)"
      by (simp only: target)
    moreover have "posToString x = c # (take (nat ?n - 1) cs @ ''.'' @ drop (nat ?n) ?ds)"
      using p hd(1) nk by (cases "nat ?n") simp_all
    ultimately show ?thesis using hd(2) by blast
  next
    case c
    let ?z = "nat (- ?n)"
    have p: "posToString x = ''0'' @ ''.'' @ (replicate ?z CHR ''0'' @ ?ds) @ []"
      using c unfolding pdef by auto
    have dz: "list_all isDigit (replicate ?z CHR ''0'' @ ?ds)"
      using dg by (auto simp: list_all_iff isDigit_zero)
    have "readUnsigned (posToString x)
            = Some (scale10 (of_int (digitsVal (''0'' @ replicate ?z CHR ''0'' @ ?ds)))
                (readExponent [] - int (length (replicate ?z CHR ''0'' @ ?ds))))"
      unfolding p by (rule readUnsigned_frac [OF _ _ dz]) (simp_all add: isDigit_zero)
    also have "digitsVal (''0'' @ replicate ?z CHR ''0'' @ ?ds) = ?s"
    proof -
      have "''0'' @ replicate ?z CHR ''0'' @ ?ds = replicate (Suc ?z) CHR ''0'' @ ?ds" by simp
      then show ?thesis
        by (simp only: digitsVal_append digitsVal_zeros val mult_zero_left add_0)
    qed
    also have "scale10 (of_int ?s) (readExponent [] - int (length (replicate ?z CHR ''0'' @ ?ds)))
               = of_int ?s * 10 powi (?n - int ?k)"
      using c by (simp add: scale10_int)
    finally have "readUnsigned (posToString x) = Some (approx17 x)"
      by (simp only: target)
    moreover have "posToString x = CHR ''0'' # (''.'' @ replicate ?z CHR ''0'' @ ?ds)"
      using p by simp
    ultimately show ?thesis using isDigit_zero by blast
  next
    case d
    have p: "posToString x = ?ds @ exponentText (?n - 1)"
      using d unfolding pdef by auto
    have "readUnsigned (posToString x)
            = Some (scale10 (of_int (digitsVal ?ds)) (readExponent (exponentText (?n - 1))))"
      unfolding p using exponentText_head by (intro readUnsigned_int) (simp_all add: dg ne)
    also have "scale10 (of_int (digitsVal ?ds)) (readExponent (exponentText (?n - 1)))
               = of_int ?s * 10 powi (?n - int ?k)"
      using d(4) by (simp add: val readExponent_text scale10_int)
    finally have "readUnsigned (posToString x) = Some (approx17 x)"
      by (simp only: target)
    moreover have "posToString x = c # (cs @ exponentText (?n - 1))"
      using p hd(1) by simp
    ultimately show ?thesis using hd(2) by blast
  next
    case e
    have p: "posToString x = take 1 ?ds @ ''.'' @ drop 1 ?ds @ exponentText (?n - 1)"
      using e unfolding pdef by auto
    have "readUnsigned (posToString x)
            = Some (scale10 (of_int (digitsVal (take 1 ?ds @ drop 1 ?ds)))
                (readExponent (exponentText (?n - 1)) - int (length (drop 1 ?ds))))"
      unfolding p using dg ne exponentText_head
      by (intro readUnsigned_frac) (auto simp: list_all_iff hd(1))
    also have "scale10 (of_int (digitsVal (take 1 ?ds @ drop 1 ?ds)))
                (readExponent (exponentText (?n - 1)) - int (length (drop 1 ?ds)))
               = of_int ?s * 10 powi (?n - int ?k)"
      using k1 by (simp add: val readExponent_text scale10_int of_nat_diff)
    finally have "readUnsigned (posToString x) = Some (approx17 x)"
      by (simp only: target)
    moreover have "posToString x = c # (''.'' @ cs @ exponentText (?n - 1))"
      using p hd(1) by simp
    ultimately show ?thesis using hd(2) by blast
  qed
qed

lemma parseFloat_zero: "parseFloat ''0'' = Some 0"
  by code_simp

lemma approx17_zero: "approx17 0 = 0"
  by code_simp

lemma parseFloat_numToString:
  "parseFloat (numToString x) = Some (if x < 0 then - approx17 (- x) else approx17 x)"
proof -
  consider (z) "x = 0" | (p) "0 < x" | (n) "x < 0" by linarith
  then show ?thesis
  proof cases
    case z
    then show ?thesis
      by (simp add: numToString_def parseFloat_zero approx17_zero)
  next
    case p
    from readUnsigned_posToString [OF p] obtain c cs where
      r: "readUnsigned (posToString x) = Some (approx17 x)" and h: "posToString x = c # cs" "isDigit c"
      by blast
    have "parseFloat (posToString x) = readUnsigned (posToString x)"
      unfolding h(1) by (rule parseFloat_digit_head [OF h(2)])
    with p r show ?thesis
      by (simp add: numToString_def)
  next
    case n
    then have p: "0 < - x" by simp
    from readUnsigned_posToString [OF p] obtain c cs where
      r: "readUnsigned (posToString (- x)) = Some (approx17 (- x))"
      and h: "posToString (- x) = c # cs" "isDigit c"
      by blast
    have "parseFloat (CHR ''-'' # posToString (- x)) = map_option uminus (readUnsigned (posToString (- x)))"
      unfolding h(1) by (rule parseFloat_minus [OF h(2)])
    with n r show ?thesis
      by (simp add: numToString_def)
  qed
qed

lemma printable_iff_sig17: "printable x \<longleftrightarrow> sig17 x"
proof (cases "x < 0")
  case True
  then have "\<bar>x\<bar> = - x" by simp
  with True show ?thesis
    by (auto simp: printable_def sig17_def parseFloat_numToString)
next
  case False
  then have "\<bar>x\<bar> = x" by simp
  with False show ?thesis
    by (simp add: printable_def sig17_def parseFloat_numToString)
qed

lemma decExp_upper:
  assumes "0 < x" "x < 10 powi e"
  shows "decExp x \<le> e"
proof -
  from decExp_bounds [OF assms(1)] have "10 powi (decExp x - 1) \<le> x" by simp
  with assms(2) have lt: "(10::rat) powi (decExp x - 1) < 10 powi e" by linarith
  have "decExp x - 1 < e"
  proof (rule ccontr)
    assume "\<not> decExp x - 1 < e"
    then have "e \<le> decExp x - 1" by simp
    then have "(10::rat) powi e \<le> 10 powi (decExp x - 1)"
      by (rule power_int_increasing) simp
    with lt show False by simp
  qed
  then show ?thesis by simp
qed

lemma sig17_cents:
  assumes "\<bar>c\<bar> < 10 ^ 15"
  shows "sig17 (of_int c / 100)"
proof (cases "c = 0")
  case True
  then show ?thesis by (simp add: sig17_def approx17_zero)
next
  case False
  let ?x = "(of_int \<bar>c\<bar> / 100) :: rat"
  have ax: "\<bar>of_int c / 100 :: rat\<bar> = ?x" by simp
  have pos: "0 < ?x" using False by simp
  have "(of_int \<bar>c\<bar> :: rat) < of_int (10 ^ 15)"
    using assms by (simp only: of_int_less_iff)
  then have "?x < 10 powi 13" by simp
  from decExp_upper [OF pos this] have n: "decExp ?x \<le> 13" .
  define m where "m = nat (15 - decExp ?x)"
  have e: "17 - decExp ?x = 2 + int m" "decExp ?x - 17 = - (2 + int m)"
    using n by (simp_all add: m_def)
  have s: "scale10 ?x (17 - decExp ?x) = of_int (\<bar>c\<bar> * 10 ^ m)"
    unfolding e scale10_powi by (simp add: power_int_add)
  have "approx17 ?x = of_int (\<bar>c\<bar> * 10 ^ m) * 10 powi (- (2 + int m))"
    unfolding approx17_def s floor_of_int e(2) by (rule scale10_powi)
  also have "(10::rat) powi (- (2 + int m)) = 1 / (100 * 10 ^ m)"
  proof -
    have "- (2 + int m) = - int (2 + m)" by simp
    then have "(10::rat) powi (- (2 + int m)) = 1 / 10 ^ (2 + m)"
      by (simp only: power_int_minus_divide power_int_of_nat)
    then show ?thesis by (simp add: power_add)
  qed
  also have "of_int (\<bar>c\<bar> * 10 ^ m) * (1 / (100 * 10 ^ m)) = ?x"
    by simp
  finally show ?thesis
    unfolding sig17_def ax .
qed

lemma printable_cents: "\<bar>c\<bar> < 10 ^ 15 \<Longrightarrow> printable (of_int c / 100)"
  by (simp only: printable_iff_sig17 sig17_cents)

end
